theory Spec2Isabelle
  imports Complex_Main
begin

section \<open>Python values shared by the recognizer and the model selectors\<close>

text \<open>
  A Python float is a finite number, one of the two infinities, or NaN. The finite
  values are embedded in the reals: every float is a value of this type, and the
  comparisons, which are the only float operations the recognizer performs, are exact.
\<close>

datatype pyfloat = NaN | NInf | Fin real | PInf

text \<open>Python's \<^verbatim>\<open>a > b\<close> on floats: false as soon as one side is NaN.\<close>

fun fgt :: "pyfloat \<Rightarrow> pyfloat \<Rightarrow> bool" where
  "fgt NaN b = False"
| "fgt a NaN = False"
| "fgt NInf b = False"
| "fgt (Fin x) NInf = True"
| "fgt (Fin x) (Fin y) = (y < x)"
| "fgt (Fin x) PInf = False"
| "fgt PInf PInf = False"
| "fgt PInf b = True"

text \<open>Python's \<^verbatim>\<open>a < b\<close>.\<close>

definition flt :: "pyfloat \<Rightarrow> pyfloat \<Rightarrow> bool" where
  "flt a b = fgt b a"

text \<open>
  The exceptions the code can meet. \<open>HmmError\<close> stands for whatever the HMM library
  raises from \<^verbatim>\<open>fit\<close> or \<^verbatim>\<open>score\<close>; all of them are instances of
  \<^verbatim>\<open>Exception\<close>. Signals outside that class (interpreter exit, keyboard interrupt)
  are not modelled.
\<close>

datatype error = IndexError | KeyError | ValueError | ZeroDivisionError
  | OverflowError | UnboundLocalError | HmmError

text \<open>
  \<^verbatim>\<open>xs[i]\<close> for a Python list and an integer index: indices from \<open>0\<close> read from
  the front, indices from \<open>-1\<close> down to \<open>-len(xs)\<close> read from the back, and any
  other index raises \<^verbatim>\<open>IndexError\<close>.
\<close>

definition list_get :: "'a list \<Rightarrow> int \<Rightarrow> error + 'a" where
  "list_get xs i =
     (if 0 \<le> i \<and> i < int (length xs) then Inr (xs ! nat i)
      else if i < 0 \<and> - int (length xs) \<le> i then Inr (xs ! nat (int (length xs) + i))
      else Inl IndexError)"

section \<open>The recognizer (my\_recognizer.py)\<close>

text \<open>
  The test set is the external class \<^verbatim>\<open>SinglesData\<close>; \<^verbatim>\<open>recognize\<close> reads
  two things from it: the dictionary returned by \<^verbatim>\<open>get_all_Xlengths()\<close>, here the
  list of its items in iteration order (word id, then the pair of observations and
  lengths), and the list \<^verbatim>\<open>wordlist\<close>.
\<close>

record ('w, 'x, 'l) SinglesData =
  all_Xlengths :: "(int \<times> ('x \<times> 'l)) list"
  wordlist :: "'w list"

text \<open>
  \<^verbatim>\<open>model.score(test_X, test_Xlength)\<close> is a call into the HMM library: it returns a
  float or raises. It is a parameter of the model.
\<close>

type_synonym ('m, 'x, 'l) scorer = "'m \<Rightarrow> 'x \<Rightarrow> 'l \<Rightarrow> error + pyfloat"

text \<open>Lines 38 to 42: the score of one model, \<open>-1000\<close> when scoring raises.\<close>

definition try_score :: "('m, 'x, 'l) scorer \<Rightarrow> 'm \<Rightarrow> 'x \<Rightarrow> 'l \<Rightarrow> pyfloat" where
  "try_score sc model test_X test_Xlength =
     (case sc model test_X test_Xlength of
        Inl e \<Rightarrow> Fin (- 1000)
      | Inr score \<Rightarrow> score)"

text \<open>
  Lines 36 to 47: the loop over \<^verbatim>\<open>models.items()\<close>. The state is
  \<open>(prob_map, max_prob, best_word)\<close>; \<open>best_word = None\<close> is Python's \<^verbatim>\<open>None\<close>.
\<close>

fun score_words ::
  "('m, 'x, 'l) scorer \<Rightarrow> 'x \<Rightarrow> 'l \<Rightarrow> ('w \<times> 'm) list
    \<Rightarrow> ('w \<rightharpoonup> pyfloat) \<times> pyfloat \<times> 'w option
    \<Rightarrow> ('w \<rightharpoonup> pyfloat) \<times> pyfloat \<times> 'w option" where
  "score_words sc test_X test_Xlength [] st = st"
| "score_words sc test_X test_Xlength ((word, model) # rest) (prob_map, max_prob, best_word) =
     (let score = try_score sc model test_X test_Xlength;
          prob_map' = prob_map(word \<mapsto> score)
      in if fgt score max_prob
         then score_words sc test_X test_Xlength rest (prob_map', score, Some word)
         else score_words sc test_X test_Xlength rest (prob_map', max_prob, best_word))"

text \<open>
  Lines 27 to 50: the loop over the test items. \<open>best_word\<close> is carried from one item
  to the next (it is assigned once, on line 24, before the loop), while \<open>prob_map\<close> and
  \<open>max_prob\<close> start afresh for every item. Line 31 indexes \<^verbatim>\<open>wordlist\<close> and can
  raise.
\<close>

fun recognize_items ::
  "('m, 'x, 'l) scorer \<Rightarrow> ('w \<times> 'm) list \<Rightarrow> 'w list \<Rightarrow> (int \<times> ('x \<times> 'l)) list
    \<Rightarrow> ('w \<rightharpoonup> pyfloat) list \<times> 'w option list \<times> 'w option
    \<Rightarrow> error + (('w \<rightharpoonup> pyfloat) list \<times> 'w option list)" where
  "recognize_items sc models wl [] (probabilities, guesses, best_word) =
     Inr (probabilities, guesses)"
| "recognize_items sc models wl ((word_id, test_sequence) # rest)
       (probabilities, guesses, best_word) =
     (let test_X = fst test_sequence;
          test_Xlength = snd test_sequence
      in case list_get wl word_id of
           Inl e \<Rightarrow> Inl e
         | Inr test_word \<Rightarrow>
             (case score_words sc test_X test_Xlength models (Map.empty, NInf, best_word) of
                (prob_map, max_prob, best_word') \<Rightarrow>
                  recognize_items sc models wl rest
                    (probabilities @ [prob_map], guesses @ [best_word'], best_word')))"

definition recognize ::
  "('m, 'x, 'l) scorer \<Rightarrow> ('w \<times> 'm) list \<Rightarrow> ('w, 'x, 'l) SinglesData
    \<Rightarrow> error + (('w \<rightharpoonup> pyfloat) list \<times> 'w option list)" where
  "recognize sc models test_set =
     recognize_items sc models (wordlist test_set) (all_Xlengths test_set) ([], [], None)"

text \<open>
  Every word id of the test set indexes \<^verbatim>\<open>wordlist\<close>: what \<^verbatim>\<open>SinglesData\<close>
  guarantees by building both from the same table.
\<close>

definition ids_ok :: "('w, 'x, 'l) SinglesData \<Rightarrow> bool" where
  "ids_ok test_set =
     (\<forall>word_id \<in> fst ` set (all_Xlengths test_set).
        - int (length (wordlist test_set)) \<le> word_id \<and> word_id < int (length (wordlist test_set)))"

text \<open>The observations and the lengths of the \<open>k\<close>-th item of the test set.\<close>

definition item_X :: "('w, 'x, 'l) SinglesData \<Rightarrow> nat \<Rightarrow> 'x" where
  "item_X test_set k = fst (snd (all_Xlengths test_set ! k))"

definition item_lengths :: "('w, 'x, 'l) SinglesData \<Rightarrow> nat \<Rightarrow> 'l" where
  "item_lengths test_set k = snd (snd (all_Xlengths test_set ! k))"

text \<open>
  A small concrete instance of the recognizer's inputs: two word models, of which the
  first always fails to score, and a test set of two items.
\<close>

definition demo_models :: "(string \<times> nat) list" where
  "demo_models = [(''BOOK'', 0), (''FISH'', 1)]"

definition demo_scorer :: "(nat, nat, nat) scorer" where
  "demo_scorer model X L = (if model = 0 then Inl HmmError else Inr (Fin (- real X)))"

definition ninf_scorer :: "(nat, nat, nat) scorer" where
  "ninf_scorer model X L = Inr NInf"

definition demo_test_set :: "(string, nat, nat) SinglesData" where
  "demo_test_set = \<lparr>all_Xlengths = [(0, (5, 1)), (1, (7, 1))], wordlist = [''FISH'', ''BOOK'']\<rparr>"

section \<open>The model selectors (my\_model\_selectors.py)\<close>

subsection \<open>The libraries the selectors call\<close>

text \<open>
  \<^verbatim>\<open>GaussianHMM(n_components=n, covariance_type="diag", n_iter=1000,
  random_state=r, verbose=False).fit(X, lengths)\<close> returns a fitted model or raises;
  \<^verbatim>\<open>model.score(X, lengths)\<close> returns a float or raises. With a fixed random state
  both are functions of their arguments; they are parameters of the model. The
  observations \<open>X\<close> are a list of rows, each row the list of the features of one frame.
\<close>

record ('f, 'm) hmmlib =
  hmm_fit :: "int \<Rightarrow> int \<Rightarrow> 'f list list \<Rightarrow> int list \<Rightarrow> error + 'm"
  hmm_score :: "'m \<Rightarrow> 'f list list \<Rightarrow> int list \<Rightarrow> error + pyfloat"

text \<open>
  The float arithmetic of the selectors. The operations are parameters, so that what
  is proved about a selector does not depend on how floats round. \<open>fl_log\<close> is
  \<^verbatim>\<open>math.log\<close> on an integer, which raises on an argument that is not positive.
  An integer operand of a mixed operation is converted to a float first: \<open>fl_of_int\<close>
  is that conversion, which raises \<^verbatim>\<open>OverflowError\<close> on an integer beyond the
  range of the floats. The small constants of the code convert exactly and are written
  as the floats they become.
\<close>

record float_ops =
  fl_add :: "pyfloat \<Rightarrow> pyfloat \<Rightarrow> pyfloat"
  fl_sub :: "pyfloat \<Rightarrow> pyfloat \<Rightarrow> pyfloat"
  fl_mul :: "pyfloat \<Rightarrow> pyfloat \<Rightarrow> pyfloat"
  fl_div :: "pyfloat \<Rightarrow> pyfloat \<Rightarrow> pyfloat"
  fl_log :: "int \<Rightarrow> error + pyfloat"
  fl_of_int :: "int \<Rightarrow> error + pyfloat"

text \<open>
  \<^verbatim>\<open>KFold(n_splits=k)\<close> returns a splitter or raises; \<^verbatim>\<open>split(sequences)\<close>
  yields the folds as pairs of index lists (training, test); \<^verbatim>\<open>combine_sequences\<close>
  turns an index list and the sequences into observations and lengths. All three are
  parameters.
\<close>

record 'f cvlib =
  KFold :: "int \<Rightarrow> error + ('f list list list \<Rightarrow> error + (nat list \<times> nat list) list)"
  combine_sequences :: "nat list \<Rightarrow> 'f list list list \<Rightarrow> error + ('f list list \<times> int list)"

text \<open>One call of \<^verbatim>\<open>fit\<close>: the number of states, the observations, the lengths.\<close>

type_synonym 'f fit_call = "int \<times> 'f list list \<times> int list"

subsection \<open>The base class\<close>

text \<open>
  The fields \<^verbatim>\<open>__init__\<close> sets. The two dictionaries are lists of their items
  in iteration order.
\<close>

record ('w, 'f) ModelSelector =
  words :: "('w \<times> 'f list list list) list"
  hwords :: "('w \<times> ('f list list \<times> int list)) list"
  sequences :: "'f list list list"
  X :: "'f list list"
  lengths :: "int list"
  this_word :: 'w
  n_constant :: int
  min_n_components :: int
  max_n_components :: int
  random_state :: int
  verbose :: bool

text \<open>Lines 16 to 29. Looking \<open>this_word\<close> up in either dictionary can raise.\<close>

definition ModelSelector_init ::
  "('w \<times> 'f list list list) list \<Rightarrow> ('w \<times> ('f list list \<times> int list)) list \<Rightarrow> 'w
     \<Rightarrow> int \<Rightarrow> int \<Rightarrow> int \<Rightarrow> int \<Rightarrow> bool \<Rightarrow> error + ('w, 'f) ModelSelector" where
  "ModelSelector_init all_word_sequences all_word_Xlengths word nc mn mx rs vb =
     (case map_of all_word_sequences word of
        None \<Rightarrow> Inl KeyError
      | Some sq \<Rightarrow>
          (case map_of all_word_Xlengths word of
             None \<Rightarrow> Inl KeyError
           | Some xl \<Rightarrow>
               Inr \<lparr>words = all_word_sequences, hwords = all_word_Xlengths, sequences = sq,
                    X = fst xl, lengths = snd xl, this_word = word, n_constant = nc,
                    min_n_components = mn, max_n_components = mx, random_state = rs,
                    verbose = vb\<rparr>))"

text \<open>
  Lines 34 to 47, \<^verbatim>\<open>base_model\<close>: the fitted model, or \<open>None\<close> when the fit raises
  (the bare \<^verbatim>\<open>except\<close> catches everything). The messages printed when
  \<open>verbose\<close> is set are not part of the model. The second component of the result
  is the list of calls of \<^verbatim>\<open>fit\<close> that were made.
\<close>

definition base_model ::
  "('f, 'm) hmmlib \<Rightarrow> ('w, 'f) ModelSelector \<Rightarrow> int \<Rightarrow> 'm option \<times> 'f fit_call list" where
  "base_model lib self num_states =
     (case hmm_fit lib num_states (random_state self) (X self) (lengths self) of
        Inr hmm_model \<Rightarrow> (Some hmm_model, [(num_states, X self, lengths self)])
      | Inl e \<Rightarrow> (None, [(num_states, X self, lengths self)]))"

subsection \<open>SelectorConstant\<close>

definition SelectorConstant_select ::
  "('f, 'm) hmmlib \<Rightarrow> ('w, 'f) ModelSelector \<Rightarrow> 'm option \<times> 'f fit_call list" where
  "SelectorConstant_select lib self =
     (let best_num_components = n_constant self
      in base_model lib self best_num_components)"

subsection \<open>SelectorBIC\<close>

text \<open>
  Lines 93 to 101, the body of the \<^verbatim>\<open>try\<close> for candidate \<open>i\<close>: fit, score, then
  \<open>N = len(self.lengths)\<close>, \<open>p = i * i + 2 * i * len(self.X[0]) - 1\<close> and
  \<open>bic_score = -2 * logL + p * math.log(N)\<close>. Any of these can raise: the fit, the
  scoring, \<^verbatim>\<open>self.X[0]\<close> on empty observations, \<^verbatim>\<open>math.log\<close>, and the
  conversion of \<open>p\<close> to a float in the product \<open>p * math.log(N)\<close>.
\<close>

definition bic_try ::
  "('f, 'm) hmmlib \<Rightarrow> float_ops \<Rightarrow> ('w, 'f) ModelSelector \<Rightarrow> int \<Rightarrow> error + ('m \<times> pyfloat)" where
  "bic_try lib ops self i =
     (case hmm_fit lib i (random_state self) (X self) (lengths self) of
        Inl e \<Rightarrow> Inl e
      | Inr hmm_model \<Rightarrow>
          (case hmm_score lib hmm_model (X self) (lengths self) of
             Inl e \<Rightarrow> Inl e
           | Inr logL \<Rightarrow>
               (let N = int (length (lengths self))
                in case list_get (X self) 0 of
                     Inl e \<Rightarrow> Inl e
                   | Inr x0 \<Rightarrow>
                       (let p = i * i + 2 * i * int (length x0) - 1
                        in case fl_log ops N of
                             Inl e \<Rightarrow> Inl e
                           | Inr logN \<Rightarrow>
                               (case fl_of_int ops p of
                                  Inl e \<Rightarrow> Inl e
                                | Inr pf \<Rightarrow>
                                    Inr (hmm_model,
                                         fl_add ops (fl_mul ops (Fin (- 2)) logL)
                                                    (fl_mul ops pf logN)))))))"

text \<open>
  Lines 88 to 112, the loop over the candidates. The state is
  \<open>(best_model, best_score, fits)\<close>; \<open>best_num_components\<close> is only ever written and is
  left out. \<^verbatim>\<open>self.lengths[0]\<close> is read outside the \<^verbatim>\<open>try\<close>, so its
  \<^verbatim>\<open>IndexError\<close> leaves \<^verbatim>\<open>select\<close>; an exception inside the \<^verbatim>\<open>try\<close>
  makes \<^verbatim>\<open>select\<close> return \<open>None\<close> at once.
\<close>

fun bic_loop ::
  "('f, 'm) hmmlib \<Rightarrow> float_ops \<Rightarrow> ('w, 'f) ModelSelector \<Rightarrow> int list
    \<Rightarrow> 'm option \<times> pyfloat \<times> 'f fit_call list \<Rightarrow> error + ('m option \<times> 'f fit_call list)" where
  "bic_loop lib ops self [] (best_model, best_score, fits) = Inr (best_model, fits)"
| "bic_loop lib ops self (i # rest) (best_model, best_score, fits) =
     (case list_get (lengths self) 0 of
        Inl e \<Rightarrow> Inl e
      | Inr l0 \<Rightarrow>
          if i \<ge> l0 then bic_loop lib ops self rest (best_model, best_score, fits)
          else
            (case bic_try lib ops self i of
               Inl e \<Rightarrow> Inr (None, fits @ [(i, X self, lengths self)])
             | Inr (hmm_model, bic_score) \<Rightarrow>
                 if flt bic_score best_score
                 then bic_loop lib ops self rest
                        (Some hmm_model, bic_score, fits @ [(i, X self, lengths self)])
                 else bic_loop lib ops self rest
                        (best_model, best_score, fits @ [(i, X self, lengths self)])))"

definition SelectorBIC_select ::
  "('f, 'm) hmmlib \<Rightarrow> float_ops \<Rightarrow> ('w, 'f) ModelSelector
    \<Rightarrow> error + ('m option \<times> 'f fit_call list)" where
  "SelectorBIC_select lib ops self =
     bic_loop lib ops self [min_n_components self .. max_n_components self] (None, PInf, [])"

subsection \<open>SelectorDIC\<close>

text \<open>
  Lines 157 to 192, the loop over \<^verbatim>\<open>self.words\<close> for candidate \<open>i\<close>, whose model
  \<open>hmm_model\<close> scored \<open>this_model_score\<close>. The state is
  \<open>(other_model_scores, m_count, best_model, best_score, fits)\<close>. Lines 186 to 192
  stand in the body of this loop, after the \<^verbatim>\<open>if\<close>/\<^verbatim>\<open>else\<close>: the score is
  computed, and compared with the best score, once for every word that was fitted,
  from the sum and the count reached so far. The two \<^verbatim>\<open>continue\<close> statements
  skip them. An exception (a missing key, an empty list of lengths, a fit that raises)
  is caught on line 194, which goes on with the next candidate: the loop over the words
  stops and the best model found so far stays. \<open>m_count\<close> is at least one where it
  divides.
\<close>

fun dic_words ::
  "('f, 'm) hmmlib \<Rightarrow> float_ops \<Rightarrow> ('w, 'f) ModelSelector \<Rightarrow> int \<Rightarrow> 'm \<Rightarrow> pyfloat \<Rightarrow> 'w list
    \<Rightarrow> pyfloat \<times> int \<times> 'm option \<times> pyfloat \<times> 'f fit_call list
    \<Rightarrow> 'm option \<times> pyfloat \<times> 'f fit_call list" where
  "dic_words lib ops self i hmm_model this_model_score []
       (other_model_scores, m_count, best_model, best_score, fits) =
     (best_model, best_score, fits)"
| "dic_words lib ops self i hmm_model this_model_score (word # rest)
       (other_model_scores, m_count, best_model, best_score, fits) =
     (if word = this_word self
      then dic_words lib ops self i hmm_model this_model_score rest
             (other_model_scores, m_count, best_model, best_score, fits)
      else
        (case map_of (hwords self) word of
           None \<Rightarrow> (best_model, best_score, fits)
         | Some (oX, olengths) \<Rightarrow>
             (case list_get olengths 0 of
                Inl e \<Rightarrow> (best_model, best_score, fits)
              | Inr l0 \<Rightarrow>
                  if i > l0
                  then dic_words lib ops self i hmm_model this_model_score rest
                         (other_model_scores, m_count, best_model, best_score, fits)
                  else
                    (case hmm_fit lib i (random_state self) oX olengths of
                       Inl e \<Rightarrow> (best_model, best_score, fits @ [(i, oX, olengths)])
                     | Inr other_hmm_model \<Rightarrow>
                         (let other_hmm_model_score =
                                (case hmm_score lib other_hmm_model oX olengths of
                                   Inl e \<Rightarrow> Fin 0
                                 | Inr v \<Rightarrow> v);
                              other_model_scores' = fl_add ops other_model_scores other_hmm_model_score;
                              m_count' = m_count + 1;
                              dic_score = fl_sub ops this_model_score
                                            (fl_mul ops (fl_div ops (Fin 1) (Fin (of_int m_count')))
                                                        other_model_scores')
                          in if fgt dic_score best_score
                             then dic_words lib ops self i hmm_model this_model_score rest
                                    (other_model_scores', m_count', Some hmm_model, dic_score,
                                     fits @ [(i, oX, olengths)])
                             else dic_words lib ops self i hmm_model this_model_score rest
                                    (other_model_scores', m_count', best_model, best_score,
                                     fits @ [(i, oX, olengths)]))))))"

text \<open>
  Lines 139 to 195, the loop over the candidates, with state
  \<open>(best_model, best_score, fits)\<close>. Everything is inside the \<^verbatim>\<open>try\<close>, so
  \<^verbatim>\<open>select\<close> never raises.
\<close>

fun dic_loop ::
  "('f, 'm) hmmlib \<Rightarrow> float_ops \<Rightarrow> ('w, 'f) ModelSelector \<Rightarrow> int list
    \<Rightarrow> 'm option \<times> pyfloat \<times> 'f fit_call list \<Rightarrow> 'm option \<times> 'f fit_call list" where
  "dic_loop lib ops self [] (best_model, best_score, fits) = (best_model, fits)"
| "dic_loop lib ops self (i # rest) (best_model, best_score, fits) =
     (case list_get (lengths self) 0 of
        Inl e \<Rightarrow> dic_loop lib ops self rest (best_model, best_score, fits)
      | Inr l0 \<Rightarrow>
          if i > l0 then dic_loop lib ops self rest (best_model, best_score, fits)
          else
            (case hmm_fit lib i (random_state self) (X self) (lengths self) of
               Inl e \<Rightarrow>
                 dic_loop lib ops self rest
                   (best_model, best_score, fits @ [(i, X self, lengths self)])
             | Inr hmm_model \<Rightarrow>
                 (case hmm_score lib hmm_model (X self) (lengths self) of
                    Inl e \<Rightarrow>
                      dic_loop lib ops self rest
                        (best_model, best_score, fits @ [(i, X self, lengths self)])
                  | Inr this_model_score \<Rightarrow>
                      dic_loop lib ops self rest
                        (dic_words lib ops self i hmm_model this_model_score
                           (map fst (words self))
                           (Fin 0, 0, best_model, best_score,
                            fits @ [(i, X self, lengths self)])))))"

definition SelectorDIC_select ::
  "('f, 'm) hmmlib \<Rightarrow> float_ops \<Rightarrow> ('w, 'f) ModelSelector \<Rightarrow> 'm option \<times> 'f fit_call list" where
  "SelectorDIC_select lib ops self =
     dic_loop lib ops self [min_n_components self .. max_n_components self] (None, NInf, [])"

subsection \<open>SelectorCV\<close>

text \<open>
  Lines 229 to 245, the loop over the folds for candidate \<open>i\<close>, with state
  \<open>(total_score, hmm_model, fits)\<close>. The variable \<open>hmm_model\<close> is \<open>None\<close> as long as it
  is unbound; it is bound by a fit that succeeds, also when the scoring that follows
  raises. \<^verbatim>\<open>combine_sequences\<close> is called outside the \<^verbatim>\<open>try\<close>.
\<close>

fun cv_folds ::
  "('f, 'm) hmmlib \<Rightarrow> float_ops \<Rightarrow> 'f cvlib \<Rightarrow> ('w, 'f) ModelSelector \<Rightarrow> int
    \<Rightarrow> (nat list \<times> nat list) list
    \<Rightarrow> pyfloat \<times> 'm option \<times> 'f fit_call list
    \<Rightarrow> error + (pyfloat \<times> 'm option \<times> 'f fit_call list)" where
  "cv_folds lib ops cv self i [] st = Inr st"
| "cv_folds lib ops cv self i ((cv_train_idx, cv_test_idx) # rest) (total_score, hmm_model, fits) =
     (case combine_sequences cv cv_train_idx (sequences self) of
        Inl e \<Rightarrow> Inl e
      | Inr (trX, trX_lengths) \<Rightarrow>
          (case combine_sequences cv cv_test_idx (sequences self) of
             Inl e \<Rightarrow> Inl e
           | Inr (teY, teY_lengths) \<Rightarrow>
               (case hmm_fit lib i (random_state self) trX trX_lengths of
                  Inl e \<Rightarrow>
                    cv_folds lib ops cv self i rest
                      (total_score, hmm_model, fits @ [(i, trX, trX_lengths)])
                | Inr fitted \<Rightarrow>
                    (case hmm_score lib fitted teY teY_lengths of
                       Inl e \<Rightarrow>
                         cv_folds lib ops cv self i rest
                           (total_score, Some fitted, fits @ [(i, trX, trX_lengths)])
                     | Inr logL \<Rightarrow>
                         cv_folds lib ops cv self i rest
                           (fl_add ops total_score logL, Some fitted,
                            fits @ [(i, trX, trX_lengths)])))))"

text \<open>
  Lines 224 to 253, the loop over the candidates, with state
  \<open>(best_model, best_score, hmm_model, fits)\<close>. Reading the unbound \<open>hmm_model\<close> on
  line 252 raises.
\<close>

fun cv_loop ::
  "('f, 'm) hmmlib \<Rightarrow> float_ops \<Rightarrow> 'f cvlib \<Rightarrow> ('w, 'f) ModelSelector
    \<Rightarrow> ('f list list list \<Rightarrow> error + (nat list \<times> nat list) list) \<Rightarrow> int list
    \<Rightarrow> 'm option \<times> pyfloat \<times> 'm option \<times> 'f fit_call list
    \<Rightarrow> error + ('m option \<times> 'f fit_call list)" where
  "cv_loop lib ops cv self split_method [] (best_model, best_score, hmm_model, fits) =
     Inr (best_model, fits)"
| "cv_loop lib ops cv self split_method (i # rest) (best_model, best_score, hmm_model, fits) =
     (case split_method (sequences self) of
        Inl e \<Rightarrow> Inl e
      | Inr folds \<Rightarrow>
          (case cv_folds lib ops cv self i folds (Fin 0, hmm_model, fits) of
             Inl e \<Rightarrow> Inl e
           | Inr (total_score, hmm_model', fits') \<Rightarrow>
               if min_n_components self = 0 then Inl ZeroDivisionError
               else
                 (let avg_score = fl_div ops total_score (Fin (of_int (min_n_components self)))
                  in if fgt avg_score best_score
                     then (case hmm_model' of
                             None \<Rightarrow> Inl UnboundLocalError
                           | Some fitted \<Rightarrow>
                               cv_loop lib ops cv self split_method rest
                                 (Some fitted, avg_score, hmm_model', fits'))
                     else cv_loop lib ops cv self split_method rest
                            (best_model, best_score, hmm_model', fits'))))"

text \<open>Lines 208 to 257. \<open>num_splits\<close> is \<open>min_n_components\<close>.\<close>

definition SelectorCV_select ::
  "('f, 'm) hmmlib \<Rightarrow> float_ops \<Rightarrow> 'f cvlib \<Rightarrow> ('w, 'f) ModelSelector
    \<Rightarrow> error + ('m option \<times> 'f fit_call list)" where
  "SelectorCV_select lib ops cv self =
     (let word_sequences = sequences self;
          num_splits = min_n_components self
      in if int (length word_sequences) < num_splits then Inr (None, [])
         else
           (case KFold cv num_splits of
              Inl e \<Rightarrow> Inl e
            | Inr split_method \<Rightarrow>
                cv_loop lib ops cv self split_method
                  [min_n_components self .. max_n_components self - 1]
                  (None, NInf, None, [])))"

subsection \<open>Concrete instances of the selectors' inputs\<close>

text \<open>
  An instance of the float arithmetic: the arithmetic of the reals on finite operands
  (and NaN otherwise), with the conversion of an integer raising from \<open>2 ^ 1024\<close> on.
  It is used only to run the selectors on inputs whose intermediate values are small
  integers and halves, on which float arithmetic is exact.
\<close>

fun fin_op :: "(real \<Rightarrow> real \<Rightarrow> real) \<Rightarrow> pyfloat \<Rightarrow> pyfloat \<Rightarrow> pyfloat" where
  "fin_op f (Fin x) (Fin y) = Fin (f x y)"
| "fin_op f a b = NaN"

definition real_ops :: float_ops where
  "real_ops = \<lparr>fl_add = fin_op (+), fl_sub = fin_op (-), fl_mul = fin_op (*), fl_div = fin_op (/),
               fl_log = (\<lambda>N. if N \<le> 0 then Inl ValueError else Inr (Fin (ln (real_of_int N)))),
               fl_of_int = (\<lambda>n. if \<bar>n\<bar> < 2 ^ 1024 then Inr (Fin (real_of_int n))
                                 else Inl OverflowError)\<rparr>"

text \<open>
  A selector for the word FISH among three words, with the sequences of FISH and the
  bounds on the number of states left open.
\<close>

definition demo_selector :: "int list list list \<Rightarrow> int \<Rightarrow> int \<Rightarrow> (string, int) ModelSelector" where
  "demo_selector seqs mn mx =
     \<lparr>words = [(''FISH'', seqs), (''BOOK'', [[[10], [11], [12], [13]]]),
               (''JOHN'', [[[20], [21], [22], [23], [24]]])],
      hwords = [(''FISH'', (concat seqs, map (\<lambda>sq. int (length sq)) seqs)),
                (''BOOK'', ([[10], [11], [12], [13]], [4])),
                (''JOHN'', ([[20], [21], [22], [23], [24]], [5]))],
      sequences = seqs, X = concat seqs, lengths = map (\<lambda>sq. int (length sq)) seqs,
      this_word = ''FISH'', n_constant = 3, min_n_components = mn, max_n_components = mx,
      random_state = 14, verbose = False\<rparr>"

text \<open>
  Instances of the HMM library. Under \<open>bic_lib bad\<close> a model is its number of
  states, fitting \<open>bad\<close> states raises, and a model of \<open>m\<close> states scores \<open>1000 * m\<close>.
  Under \<open>score_bad_lib bad\<close> every fit succeeds and scoring the model of \<open>bad\<close> states
  raises. Under \<open>unit_lib\<close> nothing raises and a model of \<open>m\<close> states scores \<open>m\<close>.
  Under \<open>dic_lib\<close> and \<open>cv_lib\<close> a model is its number of states together with the
  observations it was fitted on, and nothing raises.
\<close>

definition bic_lib :: "int \<Rightarrow> (int, int) hmmlib" where
  "bic_lib bad =
     \<lparr>hmm_fit = (\<lambda>n rs tX tl. if n = bad then Inl HmmError else Inr n),
      hmm_score = (\<lambda>m tX tl. Inr (Fin (1000 * real_of_int m)))\<rparr>"

definition score_bad_lib :: "int \<Rightarrow> (int, int) hmmlib" where
  "score_bad_lib bad =
     \<lparr>hmm_fit = (\<lambda>n rs tX tl. Inr n),
      hmm_score = (\<lambda>m tX tl. if m = bad then Inl HmmError else Inr (Fin (1000 * real_of_int m)))\<rparr>"

definition unit_lib :: "(int, int) hmmlib" where
  "unit_lib =
     \<lparr>hmm_fit = (\<lambda>n rs tX tl. Inr n),
      hmm_score = (\<lambda>m tX tl. Inr (Fin (real_of_int m)))\<rparr>"

definition dic_lib :: "(int, int \<times> int list list) hmmlib" where
  "dic_lib =
     \<lparr>hmm_fit = (\<lambda>n rs tX tl. Inr (n, tX)),
      hmm_score = (\<lambda>m tX tl.
         if snd m = [[10], [11], [12], [13]] then Inr (Fin (if fst m = 2 then - 10 else - 5))
         else if snd m = [[20], [21], [22], [23], [24]] then Inr (Fin (if fst m = 2 then 100 else - 5))
         else Inr (Fin 0))\<rparr>"

definition cv_lib :: "(int, int \<times> int list list) hmmlib" where
  "cv_lib =
     \<lparr>hmm_fit = (\<lambda>n rs tX tl. Inr (n, tX)),
      hmm_score = (\<lambda>m tX tl. Inr (Fin (if fst m = 3 then 5 else 1)))\<rparr>"

text \<open>
  An instance of the cross-validation helpers for a word with two sequences and two
  folds: each sequence is the test fold once, and \<^verbatim>\<open>combine_sequences\<close>
  concatenates the chosen sequences and lists their lengths.
\<close>

definition demo_cv :: "int cvlib" where
  "demo_cv =
     \<lparr>KFold = (\<lambda>k. if k \<le> 1 then Inl ValueError
                    else Inr (\<lambda>seqs. if int (length seqs) < k then Inl ValueError
                                       else Inr [([1], [0]), ([0], [1])])),
      combine_sequences = (\<lambda>idx seqs.
         Inr (concat (map (\<lambda>i. seqs ! i) idx), map (\<lambda>i. int (length (seqs ! i))) idx))\<rparr>"

subsection \<open>The criteria as the documentation states them\<close>

text \<open>
  The Bayesian information criterion in the words of the class comment:
  \<open>BIC = -2 * logL + p * log N\<close>, with \<open>N\<close> the number of data points.
\<close>

definition spec_bic :: "real \<Rightarrow> int \<Rightarrow> nat \<Rightarrow> real" where
  "spec_bic logL p N = - 2 * logL + real_of_int p * ln (real N)"

text \<open>
  The discriminative information criterion in the words of the class comment:
  the log-likelihood of the word minus the mean of the log-likelihoods of all the
  other words.
\<close>

definition spec_dic :: "real \<Rightarrow> real list \<Rightarrow> real" where
  "spec_dic logL others = logL - (1 / real (length others)) * sum_list others"

section \<open>Properties of the recognizer\<close>

subsection \<open>Float comparison\<close>

lemma fgt_trans: "fgt a b \<Longrightarrow> fgt b c \<Longrightarrow> fgt a c"
  by (cases a; cases b; cases c; simp)

lemma fgt_irrefl: "\<not> fgt a a"
  by (cases a; simp)

lemma not_fgt_NInf: "\<not> fgt s NInf \<Longrightarrow> \<not> fgt s x"
  by (cases s; cases x; simp)

subsection \<open>The loop over the word models\<close>

lemma score_words_fst:
  "fst (score_words sc tX tL models (pm, mp, bw)) =
     foldl (\<lambda>pm (w, m). pm(w \<mapsto> try_score sc m tX tL)) pm models"
  by (induction models arbitrary: pm mp bw) (auto simp: Let_def)

lemma foldl_upd_dom:
  "dom (foldl (\<lambda>pm (w, m). pm(w \<mapsto> f m)) pm models) = dom pm \<union> fst ` set models"
  by (induction models arbitrary: pm) auto

lemma foldl_upd_notin:
  "w \<notin> fst ` set models \<Longrightarrow> foldl (\<lambda>pm (w, m). pm(w \<mapsto> f m)) pm models w = pm w"
  by (induction models arbitrary: pm) auto

lemma foldl_upd_in:
  "distinct (map fst models) \<Longrightarrow> (w, m) \<in> set models \<Longrightarrow>
   foldl (\<lambda>pm (w, m). pm(w \<mapsto> f m)) pm models w = Some (f m)"
  by (induction models arbitrary: pm) (auto simp: foldl_upd_notin)

lemma score_words_mono:
  "score_words sc tX tL models (pm, mp, bw) = (pm', mp', bw') \<Longrightarrow> fgt x mp' \<Longrightarrow> fgt x mp"
proof (induction models arbitrary: pm mp bw)
  case Nil then show ?case by simp
next
  case (Cons a models)
  obtain w0 m0 where a: "a = (w0, m0)" by (cases a)
  let ?s = "try_score sc m0 tX tL"
  show ?case
  proof (cases "fgt ?s mp")
    case True
    with Cons.prems a have "score_words sc tX tL models (pm(w0 \<mapsto> ?s), ?s, Some w0) = (pm', mp', bw')"
      by (simp add: Let_def)
    from Cons.IH[OF this Cons.prems(2)] True show ?thesis
      by (rule fgt_trans)
  next
    case False
    with Cons.prems a have "score_words sc tX tL models (pm(w0 \<mapsto> ?s), mp, bw) = (pm', mp', bw')"
      by (simp add: Let_def)
    from Cons.IH[OF this Cons.prems(2)] show ?thesis .
  qed
qed

lemma score_words_upper:
  "score_words sc tX tL models (pm, mp, bw) = (pm', mp', bw') \<Longrightarrow> (w, m) \<in> set models \<Longrightarrow>
   \<not> fgt (try_score sc m tX tL) mp'"
proof (induction models arbitrary: pm mp bw)
  case Nil then show ?case by simp
next
  case (Cons a models)
  obtain w0 m0 where a: "a = (w0, m0)" by (cases a)
  show ?case
  proof (cases "(w, m) = a")
    case True
    with Cons.prems a show ?thesis
      by (auto simp: Let_def split: if_splits dest: score_words_mono simp: fgt_irrefl)
  next
    case False
    with Cons.prems a Cons.IH show ?thesis
      by (auto simp: Let_def split: if_splits)
  qed
qed

lemma score_words_best:
  "score_words sc tX tL models (pm, mp, bw) = (pm', mp', bw') \<Longrightarrow>
   (mp' = mp \<and> bw' = bw \<and> (\<forall>(w, m) \<in> set models. \<not> fgt (try_score sc m tX tL) mp)) \<or>
   (\<exists>(w, m) \<in> set models. bw' = Some w \<and> mp' = try_score sc m tX tL \<and> fgt mp' mp)"
proof (induction models arbitrary: pm mp bw)
  case Nil then show ?case by simp
next
  case (Cons a models)
  obtain w0 m0 where a: "a = (w0, m0)" by (cases a)
  let ?s = "try_score sc m0 tX tL"
  show ?case
  proof (cases "fgt ?s mp")
    case True
    with Cons.prems a have "score_words sc tX tL models (pm(w0 \<mapsto> ?s), ?s, Some w0) = (pm', mp', bw')"
      by (simp add: Let_def)
    from Cons.IH[OF this] True a show ?thesis
      by (auto dest: fgt_trans)
  next
    case False
    with Cons.prems a have "score_words sc tX tL models (pm(w0 \<mapsto> ?s), mp, bw) = (pm', mp', bw')"
      by (simp add: Let_def)
    from Cons.IH[OF this] False a show ?thesis
      by auto
  qed
qed


lemma list_get_ok:
  "- int (length wl) \<le> i \<Longrightarrow> i < int (length wl) \<Longrightarrow> \<exists>x. list_get wl i = Inr x"
  by (auto simp: list_get_def)

lemma recognize_items_char:
  assumes "\<forall>word_id \<in> fst ` set items. - int (length wl) \<le> word_id \<and> word_id < int (length wl)"
  shows "\<exists>ps' gs'. recognize_items sc models wl items (ps, gs, bw) = Inr (ps @ ps', gs @ gs')
           \<and> length ps' = length items \<and> length gs' = length items
           \<and> (\<forall>k < length items.
                 ps' ! k = fst (score_words sc (fst (snd (items ! k))) (snd (snd (items ! k))) models
                                 (Map.empty, NInf, if k = 0 then bw else gs' ! (k - 1)))
               \<and> gs' ! k = snd (snd (score_words sc (fst (snd (items ! k))) (snd (snd (items ! k))) models
                                 (Map.empty, NInf, if k = 0 then bw else gs' ! (k - 1)))))"
  using assms
proof (induction items arbitrary: ps gs bw)
  case Nil
  then show ?case by simp
next
  case (Cons it items)
  obtain word_id sq where it: "it = (word_id, sq)" by (cases it)
  from Cons.prems it obtain tw where tw: "list_get wl word_id = Inr tw"
    using list_get_ok[of wl word_id] by auto
  obtain pm mp bw' where sw: "score_words sc (fst sq) (snd sq) models (Map.empty, NInf, bw) = (pm, mp, bw')"
    by (cases "score_words sc (fst sq) (snd sq) models (Map.empty, NInf, bw)") auto
  from Cons.prems have "\<forall>word_id \<in> fst ` set items. - int (length wl) \<le> word_id \<and> word_id < int (length wl)"
    by auto
  from Cons.IH[OF this, of "ps @ [pm]" "gs @ [bw']" bw']
  obtain ps2 gs2 where r: "recognize_items sc models wl items (ps @ [pm], gs @ [bw'], bw') = Inr ((ps @ [pm]) @ ps2, (gs @ [bw']) @ gs2)"
    and l1: "length ps2 = length items" and l2: "length gs2 = length items"
    and ks: "\<forall>k < length items.
                 ps2 ! k = fst (score_words sc (fst (snd (items ! k))) (snd (snd (items ! k))) models
                                 (Map.empty, NInf, if k = 0 then bw' else gs2 ! (k - 1)))
               \<and> gs2 ! k = snd (snd (score_words sc (fst (snd (items ! k))) (snd (snd (items ! k))) models
                                 (Map.empty, NInf, if k = 0 then bw' else gs2 ! (k - 1))))"
    by blast
  have res: "recognize_items sc models wl (it # items) (ps, gs, bw) = Inr (ps @ (pm # ps2), gs @ (bw' # gs2))"
    using it tw sw r by (simp add: Let_def)
  have "\<forall>k < length (it # items).
                 (pm # ps2) ! k = fst (score_words sc (fst (snd ((it # items) ! k))) (snd (snd ((it # items) ! k))) models
                                 (Map.empty, NInf, if k = 0 then bw else (bw' # gs2) ! (k - 1)))
               \<and> (bw' # gs2) ! k = snd (snd (score_words sc (fst (snd ((it # items) ! k))) (snd (snd ((it # items) ! k))) models
                                 (Map.empty, NInf, if k = 0 then bw else (bw' # gs2) ! (k - 1))))"
  proof (intro allI impI)
    fix k assume k: "k < length (it # items)"
    show "(pm # ps2) ! k = fst (score_words sc (fst (snd ((it # items) ! k))) (snd (snd ((it # items) ! k))) models
                                 (Map.empty, NInf, if k = 0 then bw else (bw' # gs2) ! (k - 1)))
               \<and> (bw' # gs2) ! k = snd (snd (score_words sc (fst (snd ((it # items) ! k))) (snd (snd ((it # items) ! k))) models
                                 (Map.empty, NInf, if k = 0 then bw else (bw' # gs2) ! (k - 1))))"
    proof (cases k)
      case 0
      then show ?thesis using it sw by simp
    next
      case (Suc j)
      with k have j: "j < length items" by simp
      have e: "(bw' # gs2) ! j = (if j = 0 then bw' else gs2 ! (j - 1))"
        by (cases j) auto
      from ks j Suc e show ?thesis by simp
    qed
  qed
  with res l1 l2 show ?case
    by (intro exI[of _ "pm # ps2"] exI[of _ "bw' # gs2"]) simp
qed

subsection \<open>The guesses, item by item\<close>

lemma recognize_char:
  assumes "ids_ok ts"
  shows "\<exists>probs guesses. recognize sc models ts = Inr (probs, guesses)
           \<and> length probs = length (all_Xlengths ts) \<and> length guesses = length (all_Xlengths ts)
           \<and> (\<forall>k < length (all_Xlengths ts).
                 probs ! k = fst (score_words sc (item_X ts k) (item_lengths ts k) models
                                 (Map.empty, NInf, if k = 0 then None else guesses ! (k - 1)))
               \<and> guesses ! k = snd (snd (score_words sc (item_X ts k) (item_lengths ts k) models
                                 (Map.empty, NInf, if k = 0 then None else guesses ! (k - 1)))))"
  using recognize_items_char[of "all_Xlengths ts" "wordlist ts" sc models "[]" "[]" None] assms
  unfolding recognize_def ids_ok_def item_X_def item_lengths_def by simp

lemma score_words_prob:
  assumes "distinct (map fst models)" "(w, m) \<in> set models"
  shows "fst (score_words sc tX tL models (Map.empty, NInf, bw)) w = Some (try_score sc m tX tL)"
  using foldl_upd_in[OF assms, of "\<lambda>m. try_score sc m tX tL" Map.empty]
  by (simp add: score_words_fst)

lemma score_words_dom:
  "dom (fst (score_words sc tX tL models (Map.empty, NInf, bw))) = fst ` set models"
  using foldl_upd_dom[of "\<lambda>m. try_score sc m tX tL" Map.empty models]
  by (simp add: score_words_fst)

lemma score_words_guess:
  "(snd (snd (score_words sc tX tL models (Map.empty, NInf, bw))) = bw
      \<and> (\<forall>w m. (w, m) \<in> set models \<longrightarrow> \<not> fgt (try_score sc m tX tL) NInf))
   \<or> (\<exists>w m. (w, m) \<in> set models
        \<and> snd (snd (score_words sc tX tL models (Map.empty, NInf, bw))) = Some w
        \<and> fgt (try_score sc m tX tL) NInf
        \<and> (\<forall>w' m'. (w', m') \<in> set models \<longrightarrow> \<not> fgt (try_score sc m' tX tL) (try_score sc m tX tL)))"
proof -
  obtain pm mp g where sw: "score_words sc tX tL models (Map.empty, NInf, bw) = (pm, mp, g)"
    by (cases "score_words sc tX tL models (Map.empty, NInf, bw)") auto
  from score_words_best[OF sw] show ?thesis
  proof
    assume "mp = NInf \<and> g = bw \<and> (\<forall>(w, m) \<in> set models. \<not> fgt (try_score sc m tX tL) NInf)"
    with sw show ?thesis by auto
  next
    assume "\<exists>(w, m) \<in> set models. g = Some w \<and> mp = try_score sc m tX tL \<and> fgt mp NInf"
    then obtain w m where wm: "(w, m) \<in> set models" "g = Some w" "mp = try_score sc m tX tL" "fgt mp NInf"
      by auto
    have "\<forall>w' m'. (w', m') \<in> set models \<longrightarrow> \<not> fgt (try_score sc m' tX tL) (try_score sc m tX tL)"
      using score_words_upper[OF sw] wm(3) by simp
    with wm sw show ?thesis by auto
  qed
qed

lemma score_words_guess_mem:
  "snd (snd (score_words sc tX tL models (Map.empty, NInf, bw))) = bw
   \<or> snd (snd (score_words sc tX tL models (Map.empty, NInf, bw))) \<in> Some ` fst ` set models"
proof -
  let ?g = "snd (snd (score_words sc tX tL models (Map.empty, NInf, bw)))"
  from score_words_guess[of sc tX tL models bw] show ?thesis
  proof (elim disjE conjE exE)
    assume "?g = bw"
    then show ?thesis by (rule disjI1)
  next
    fix w m assume "(w, m) \<in> set models" "?g = Some w"
    then have "?g \<in> Some ` fst ` set models"
      by (simp add: image_iff) (rule bexI[of _ "(w, m)"], simp_all)
    then show ?thesis by (rule disjI2)
  qed
qed

lemma score_words_guess_some:
  assumes "(w, m) \<in> set models" "fgt (try_score sc m tX tL) NInf"
  shows "snd (snd (score_words sc tX tL models (Map.empty, NInf, bw))) \<noteq> None"
proof -
  let ?g = "snd (snd (score_words sc tX tL models (Map.empty, NInf, bw)))"
  from score_words_guess[of sc tX tL models bw] show ?thesis
  proof (elim disjE conjE exE)
    assume "\<forall>w m. (w, m) \<in> set models \<longrightarrow> \<not> fgt (try_score sc m tX tL) NInf"
    then have "\<not> fgt (try_score sc m tX tL) NInf" using assms(1) by (elim allE impE)
    with assms(2) show ?thesis by simp
  next
    fix w' m' assume "?g = Some w'"
    then show ?thesis by simp
  qed
qed

lemma guesses_step:
  assumes "\<forall>k < n. guesses ! k = snd (snd (score_words sc (tX k) (tL k) models
                                 (Map.empty, NInf, if k = 0 then None else guesses ! (k - 1))))"
    and "k < n"
  shows "guesses ! k = snd (snd (score_words sc (tX k) (tL k) models
                                 (Map.empty, NInf, case k of 0 \<Rightarrow> None | Suc j \<Rightarrow> guesses ! j)))"
proof -
  from assms have "guesses ! k = snd (snd (score_words sc (tX k) (tL k) models
                                 (Map.empty, NInf, if k = 0 then None else guesses ! (k - 1))))"
    by (elim allE impE)
  moreover have "(if k = 0 then None else guesses ! (k - 1)) = (case k of 0 \<Rightarrow> None | Suc j \<Rightarrow> guesses ! j)"
    by (cases k) simp_all
  ultimately show ?thesis by (simp only:)
qed

lemma guesses_keys:
  assumes "\<forall>k < n. guesses ! k = snd (snd (score_words sc (tX k) (tL k) models
                                 (Map.empty, NInf, if k = 0 then None else guesses ! (k - 1))))"
  shows "k < n \<Longrightarrow> guesses ! k = None \<or> guesses ! k \<in> Some ` fst ` set models"
proof (induction k)
  case 0
  from guesses_step[OF assms 0]
  have e: "guesses ! 0 = snd (snd (score_words sc (tX 0) (tL 0) models (Map.empty, NInf, None)))"
    by simp
  from score_words_guess_mem[of sc "tX 0" "tL 0" models None] show ?case
    by (simp only: e[symmetric])
next
  case (Suc k)
  from guesses_step[OF assms Suc.prems]
  have e: "guesses ! Suc k = snd (snd (score_words sc (tX (Suc k)) (tL (Suc k)) models (Map.empty, NInf, guesses ! k)))"
    by simp
  from Suc have p: "guesses ! k = None \<or> guesses ! k \<in> Some ` fst ` set models" by simp
  from score_words_guess_mem[of sc "tX (Suc k)" "tL (Suc k)" models "guesses ! k"]
  have "guesses ! Suc k = guesses ! k \<or> guesses ! Suc k \<in> Some ` fst ` set models"
    by (simp only: e[symmetric])
  with p show ?case by (elim disjE) simp_all
qed

lemma guesses_some:
  assumes "\<forall>k < n. guesses ! k = snd (snd (score_words sc (tX k) (tL k) models
                                 (Map.empty, NInf, if k = 0 then None else guesses ! (k - 1))))"
    and "(w, m) \<in> set models" and "fgt (try_score sc m (tX j) (tL j)) NInf"
  shows "j \<le> k \<Longrightarrow> k < n \<Longrightarrow> guesses ! k \<noteq> None"
proof (induction k)
  case 0
  then have j: "j = 0" by simp
  from guesses_step[OF assms(1) 0(2)]
  have e: "guesses ! 0 = snd (snd (score_words sc (tX 0) (tL 0) models (Map.empty, NInf, None)))"
    by simp
  from assms(3) j have "fgt (try_score sc m (tX 0) (tL 0)) NInf" by simp
  from score_words_guess_some[OF assms(2) this, of None] show ?case
    by (simp only: e) simp
next
  case (Suc k)
  from guesses_step[OF assms(1) Suc.prems(2)]
  have e: "guesses ! Suc k = snd (snd (score_words sc (tX (Suc k)) (tL (Suc k)) models (Map.empty, NInf, guesses ! k)))"
    by simp
  show ?case
  proof (cases "j = Suc k")
    case True
    with assms(3) have "fgt (try_score sc m (tX (Suc k)) (tL (Suc k))) NInf" by simp
    from score_words_guess_some[OF assms(2) this, of "guesses ! k"] show ?thesis
      by (simp only: e) simp
  next
    case False
    with Suc have nn: "guesses ! k \<noteq> None" by simp
    from score_words_guess_mem[of sc "tX (Suc k)" "tL (Suc k)" models "guesses ! k"]
    have "guesses ! Suc k = guesses ! k \<or> guesses ! Suc k \<in> Some ` fst ` set models"
      by (simp only: e[symmetric])
    with nn show ?thesis by (elim disjE) auto
  qed
qed

lemma demo_ids_ok: "ids_ok demo_test_set"
  by (simp add: ids_ok_def demo_test_set_def)

lemma demo_distinct: "distinct (map fst demo_models)"
  by (simp add: demo_models_def)

lemma demo_eval:
  "recognize demo_scorer demo_models demo_test_set
     = Inr ([[''BOOK'' \<mapsto> Fin (- 1000), ''FISH'' \<mapsto> Fin (- 5)],
             [''BOOK'' \<mapsto> Fin (- 1000), ''FISH'' \<mapsto> Fin (- 7)]], [Some ''FISH'', Some ''FISH''])"
  by (simp add: recognize_def demo_test_set_def demo_models_def list_get_def demo_scorer_def try_score_def Let_def)

subsection \<open>The claims about the recognizer\<close>

text \<open>
  C1 (amended). Let the test set be well formed and the keys of \<open>models\<close> distinct.
  If, for the item at position \<open>k\<close> or for an earlier item, some word's recorded score
  is greater than minus infinity, then \<open>recognize\<close> returns, and its guess for item
  \<open>k\<close> is a word of \<open>models\<close> whose value in that item's dictionary is maximal: no
  word of the same dictionary has a strictly greater value.
\<close>

theorem recognize_guess_maximal:
  assumes ok: "ids_ok ts" and dist: "distinct (map fst models)"
    and k: "k < length (all_Xlengths ts)" and jk: "j \<le> k"
    and wm: "(w, m) \<in> set models"
    and fin: "fgt (try_score sc m (item_X ts j) (item_lengths ts j)) NInf"
  shows "\<exists>probs guesses g v. recognize sc models ts = Inr (probs, guesses)
           \<and> guesses ! k = Some g \<and> g \<in> fst ` set models \<and> (probs ! k) g = Some v
           \<and> (\<forall>w' v'. (probs ! k) w' = Some v' \<longrightarrow> \<not> fgt v' v)"
proof -
  let ?n = "length (all_Xlengths ts)"
  from recognize_char[OF ok, of sc models] obtain probs guesses where
    r: "recognize sc models ts = Inr (probs, guesses)"
    and ps: "\<forall>k < ?n. probs ! k = fst (score_words sc (item_X ts k) (item_lengths ts k) models
                                 (Map.empty, NInf, if k = 0 then None else guesses ! (k - 1)))"
    and gs: "\<forall>k < ?n. guesses ! k = snd (snd (score_words sc (item_X ts k) (item_lengths ts k) models
                                 (Map.empty, NInf, if k = 0 then None else guesses ! (k - 1))))"
    by blast
  define prev where "prev = (if k = 0 then None else guesses ! (k - 1))"
  let ?tX = "item_X ts k" and ?tL = "item_lengths ts k"
  from guesses_some[OF gs wm fin jk k] obtain g where g: "guesses ! k = Some g" by auto
  with guesses_keys[OF gs k] have gk: "g \<in> fst ` set models" by auto
  then obtain mg where mg: "(g, mg) \<in> set models" by auto
  from ps k have pk: "probs ! k = fst (score_words sc ?tX ?tL models (Map.empty, NInf, prev))"
    unfolding prev_def by (elim allE impE)
  from gs k have gk': "guesses ! k = snd (snd (score_words sc ?tX ?tL models (Map.empty, NInf, prev)))"
    unfolding prev_def by (elim allE impE)
  have val: "(probs ! k) g = Some (try_score sc mg ?tX ?tL)"
    using score_words_prob[OF dist mg, of sc ?tX ?tL prev] by (simp only: pk)
  have mx: "\<not> fgt v' (try_score sc mg ?tX ?tL)" if h: "(probs ! k) w' = Some v'" for w' v'
  proof -
    from h have "w' \<in> dom (probs ! k)" by (rule domI)
    then have "w' \<in> fst ` set models" by (simp only: pk score_words_dom)
    then obtain m' where m': "(w', m') \<in> set models" by auto
    from score_words_prob[OF dist m', of sc ?tX ?tL prev] h
    have v': "v' = try_score sc m' ?tX ?tL" by (simp only: pk) simp
    from score_words_guess[of sc ?tX ?tL models prev] show ?thesis
    proof (elim disjE conjE exE)
      assume "\<forall>w m. (w, m) \<in> set models \<longrightarrow> \<not> fgt (try_score sc m ?tX ?tL) NInf"
      with m' have "\<not> fgt (try_score sc m' ?tX ?tL) NInf" by simp
      then have "\<not> fgt v' NInf" by (simp add: v')
      then show ?thesis by (rule not_fgt_NInf)
    next
      fix w2 m2
      assume w2: "(w2, m2) \<in> set models"
        "snd (snd (score_words sc ?tX ?tL models (Map.empty, NInf, prev))) = Some w2"
        "\<forall>w' m'. (w', m') \<in> set models \<longrightarrow> \<not> fgt (try_score sc m' ?tX ?tL) (try_score sc m2 ?tX ?tL)"
      from w2(2) gk' g have "w2 = g" by simp
      with w2(1) mg dist have "m2 = mg" by (meson eq_key_imp_eq_value)
      with w2(3) m' have "\<not> fgt (try_score sc m' ?tX ?tL) (try_score sc mg ?tX ?tL)" by simp
      then show ?thesis by (simp add: v')
    qed
  qed
  from r g gk val mx show ?thesis by blast
qed

theorem recognize_guess_maximal_witness:
  "ids_ok demo_test_set \<and> distinct (map fst demo_models)
   \<and> (1::nat) < length (all_Xlengths demo_test_set) \<and> (0::nat) \<le> 1
   \<and> (''FISH'', 1) \<in> set demo_models
   \<and> fgt (try_score demo_scorer 1 (item_X demo_test_set 0) (item_lengths demo_test_set 0)) NInf
   \<and> (\<exists>probs guesses g v. recognize demo_scorer demo_models demo_test_set = Inr (probs, guesses)
           \<and> guesses ! 1 = Some g \<and> g \<in> fst ` set demo_models \<and> (probs ! 1) g = Some v
           \<and> (\<forall>w' v'. (probs ! 1) w' = Some v' \<longrightarrow> \<not> fgt v' v))"
proof -
  have k: "(1::nat) < length (all_Xlengths demo_test_set)" by (simp add: demo_test_set_def)
  have jk: "(0::nat) \<le> 1" by simp
  have wm: "(''FISH'', 1) \<in> set demo_models" by (simp add: demo_models_def)
  have fin: "fgt (try_score demo_scorer 1 (item_X demo_test_set 0) (item_lengths demo_test_set 0)) NInf"
    by (simp add: try_score_def demo_scorer_def)
  from recognize_guess_maximal[OF demo_ids_ok demo_distinct k jk wm fin]
    demo_ids_ok demo_distinct k jk wm fin
  show ?thesis by (intro conjI)
qed

text \<open>
  C1 as stated fails: with one model whose score is minus infinity on every item, the
  comparison on line 45 is never true, \<open>best_word\<close> keeps its initial \<open>None\<close>, and
  every guess is \<open>None\<close>, which is not a word of the non-empty \<open>models\<close>.
\<close>

theorem recognize_guess_none_counterexample:
  "recognize ninf_scorer [(''BOOK'', 0)] demo_test_set
     = Inr ([[''BOOK'' \<mapsto> NInf], [''BOOK'' \<mapsto> NInf]], [None, None])"
  by (simp add: recognize_def demo_test_set_def list_get_def ninf_scorer_def try_score_def Let_def)

text \<open>
  C5. On a well-formed test set \<open>recognize\<close> returns a pair of lists of equal length,
  with one entry per test item; entry \<open>k\<close> of either list belongs to the \<open>k\<close>-th word
  id of the test set (the dictionary holds the scores of that item, the guess is the best
  word after scoring that item); and every dictionary has exactly the words of \<open>models\<close>
  as its keys.
\<close>

theorem recognize_shape:
  assumes ok: "ids_ok ts" and dist: "distinct (map fst models)"
  shows "\<exists>probs guesses. recognize sc models ts = Inr (probs, guesses)
           \<and> length probs = length guesses
           \<and> length probs = length (all_Xlengths ts)
           \<and> (\<forall>k < length (all_Xlengths ts).
                 dom (probs ! k) = fst ` set models
               \<and> (\<forall>w m. (w, m) \<in> set models \<longrightarrow>
                     (probs ! k) w = Some (try_score sc m (item_X ts k) (item_lengths ts k)))
               \<and> guesses ! k = snd (snd (score_words sc (item_X ts k) (item_lengths ts k) models
                     (Map.empty, NInf, if k = 0 then None else guesses ! (k - 1)))))"
proof -
  let ?n = "length (all_Xlengths ts)"
  from recognize_char[OF ok, of sc models] obtain probs guesses where
    r: "recognize sc models ts = Inr (probs, guesses)"
    and l: "length probs = ?n" "length guesses = ?n"
    and ps: "\<forall>k < ?n. probs ! k = fst (score_words sc (item_X ts k) (item_lengths ts k) models
                                 (Map.empty, NInf, if k = 0 then None else guesses ! (k - 1)))"
    and gs: "\<forall>k < ?n. guesses ! k = snd (snd (score_words sc (item_X ts k) (item_lengths ts k) models
                                 (Map.empty, NInf, if k = 0 then None else guesses ! (k - 1))))"
    by blast
  have "dom (probs ! k) = fst ` set models
      \<and> (\<forall>w m. (w, m) \<in> set models \<longrightarrow>
             (probs ! k) w = Some (try_score sc m (item_X ts k) (item_lengths ts k)))
      \<and> guesses ! k = snd (snd (score_words sc (item_X ts k) (item_lengths ts k) models
             (Map.empty, NInf, if k = 0 then None else guesses ! (k - 1))))" if k: "k < ?n" for k
  proof -
    define prev where "prev = (if k = 0 then None else guesses ! (k - 1))"
    from ps k have pk: "probs ! k = fst (score_words sc (item_X ts k) (item_lengths ts k) models (Map.empty, NInf, prev))"
      unfolding prev_def by (elim allE impE)
    from gs k have gk: "guesses ! k = snd (snd (score_words sc (item_X ts k) (item_lengths ts k) models (Map.empty, NInf, prev)))"
      unfolding prev_def by (elim allE impE)
    have d: "dom (probs ! k) = fst ` set models" by (simp only: pk score_words_dom)
    have v: "\<forall>w m. (w, m) \<in> set models \<longrightarrow>
             (probs ! k) w = Some (try_score sc m (item_X ts k) (item_lengths ts k))"
      using score_words_prob[OF dist, of _ _ sc "item_X ts k" "item_lengths ts k" prev]
      by (simp only: pk) blast
    from d v gk show ?thesis unfolding prev_def by (intro conjI)
  qed
  with r l show ?thesis by (intro exI[of _ probs] exI[of _ guesses]) simp
qed

theorem recognize_shape_witness:
  "ids_ok demo_test_set \<and> distinct (map fst demo_models)
   \<and> (\<exists>probs guesses. recognize demo_scorer demo_models demo_test_set = Inr (probs, guesses)
           \<and> length probs = length guesses
           \<and> length probs = length (all_Xlengths demo_test_set)
           \<and> (\<forall>k < length (all_Xlengths demo_test_set).
                 dom (probs ! k) = fst ` set demo_models
               \<and> (\<forall>w m. (w, m) \<in> set demo_models \<longrightarrow>
                     (probs ! k) w = Some (try_score demo_scorer m (item_X demo_test_set k) (item_lengths demo_test_set k)))
               \<and> guesses ! k = snd (snd (score_words demo_scorer (item_X demo_test_set k) (item_lengths demo_test_set k) demo_models
                     (Map.empty, NInf, if k = 0 then None else guesses ! (k - 1))))))"
  using recognize_shape[OF demo_ids_ok demo_distinct, of demo_scorer] demo_ids_ok demo_distinct
  by (intro conjI)

text \<open>
  C6. If scoring item \<open>k\<close> against the model of word \<open>w\<close> raises, \<open>recognize\<close>
  still returns, the item's dictionary holds \<open>-1000\<close> for \<open>w\<close>, and every other word of
  \<open>models\<close> is scored and recorded all the same.
\<close>

theorem recognize_score_failure:
  assumes ok: "ids_ok ts" and dist: "distinct (map fst models)"
    and k: "k < length (all_Xlengths ts)" and wm: "(w, m) \<in> set models"
    and fails: "sc m (item_X ts k) (item_lengths ts k) = Inl e"
  shows "\<exists>probs guesses. recognize sc models ts = Inr (probs, guesses)
           \<and> (probs ! k) w = Some (Fin (- 1000))
           \<and> dom (probs ! k) = fst ` set models
           \<and> (\<forall>w' m'. (w', m') \<in> set models \<longrightarrow>
                 (probs ! k) w' = Some (try_score sc m' (item_X ts k) (item_lengths ts k)))"
proof -
  let ?n = "length (all_Xlengths ts)"
  from recognize_char[OF ok, of sc models] obtain probs guesses where
    r: "recognize sc models ts = Inr (probs, guesses)"
    and ps: "\<forall>k < ?n. probs ! k = fst (score_words sc (item_X ts k) (item_lengths ts k) models
                                 (Map.empty, NInf, if k = 0 then None else guesses ! (k - 1)))"
    by blast
  define prev where "prev = (if k = 0 then None else guesses ! (k - 1))"
  from ps k have pk: "probs ! k = fst (score_words sc (item_X ts k) (item_lengths ts k) models (Map.empty, NInf, prev))"
    unfolding prev_def by (elim allE impE)
  have d: "dom (probs ! k) = fst ` set models" by (simp only: pk score_words_dom)
  have v: "\<forall>w m. (w, m) \<in> set models \<longrightarrow>
             (probs ! k) w = Some (try_score sc m (item_X ts k) (item_lengths ts k))"
    using score_words_prob[OF dist, of _ _ sc "item_X ts k" "item_lengths ts k" prev]
    by (simp only: pk) blast
  from fails have "try_score sc m (item_X ts k) (item_lengths ts k) = Fin (- 1000)"
    by (simp add: try_score_def)
  with v wm have "(probs ! k) w = Some (Fin (- 1000))" by simp
  with r d v show ?thesis by blast
qed

theorem recognize_score_failure_witness:
  "ids_ok demo_test_set \<and> distinct (map fst demo_models)
   \<and> (1::nat) < length (all_Xlengths demo_test_set) \<and> (''BOOK'', 0) \<in> set demo_models
   \<and> demo_scorer 0 (item_X demo_test_set 1) (item_lengths demo_test_set 1) = Inl HmmError
   \<and> (\<exists>probs guesses. recognize demo_scorer demo_models demo_test_set = Inr (probs, guesses)
           \<and> (probs ! 1) ''BOOK'' = Some (Fin (- 1000))
           \<and> dom (probs ! 1) = fst ` set demo_models
           \<and> (\<forall>w' m'. (w', m') \<in> set demo_models \<longrightarrow>
                 (probs ! 1) w' = Some (try_score demo_scorer m' (item_X demo_test_set 1) (item_lengths demo_test_set 1))))"
proof -
  have k: "(1::nat) < length (all_Xlengths demo_test_set)" by (simp add: demo_test_set_def)
  have wm: "(''BOOK'', 0) \<in> set demo_models" by (simp add: demo_models_def)
  have fails: "demo_scorer 0 (item_X demo_test_set 1) (item_lengths demo_test_set 1) = Inl HmmError"
    by (simp add: demo_scorer_def)
  from recognize_score_failure[where sc = demo_scorer, OF demo_ids_ok demo_distinct k wm fails]
    demo_ids_ok demo_distinct k wm fails
  show ?thesis by (intro conjI)
qed

text \<open>
  C8. With an empty \<open>models\<close> dictionary \<open>recognize\<close> returns, for every test item,
  an empty dictionary and the guess \<open>None\<close>.
\<close>

theorem recognize_no_models:
  assumes ok: "ids_ok ts"
  shows "recognize sc [] ts =
           Inr (replicate (length (all_Xlengths ts)) Map.empty,
                replicate (length (all_Xlengths ts)) None)"
proof -
  let ?n = "length (all_Xlengths ts)"
  from recognize_char[OF ok, of sc "[]"] obtain probs guesses where
    r: "recognize sc [] ts = Inr (probs, guesses)"
    and l: "length probs = ?n" "length guesses = ?n"
    and ps: "\<forall>k < ?n. probs ! k = fst (score_words sc (item_X ts k) (item_lengths ts k) []
                                 (Map.empty, NInf, if k = 0 then None else guesses ! (k - 1)))"
    and gs: "\<forall>k < ?n. guesses ! k = snd (snd (score_words sc (item_X ts k) (item_lengths ts k) []
                                 (Map.empty, NInf, if k = 0 then None else guesses ! (k - 1))))"
    by blast
  have g: "k < ?n \<Longrightarrow> guesses ! k = None" for k
  proof (induction k)
    case 0
    with gs show ?case by simp
  next
    case (Suc k)
    then have "guesses ! k = None" by simp
    moreover from gs Suc.prems have "guesses ! Suc k = guesses ! k" by simp
    ultimately show ?case by simp
  qed
  have "probs = replicate ?n Map.empty"
    using l ps by (intro nth_equalityI) simp_all
  moreover have "guesses = replicate ?n None"
    using l g by (intro nth_equalityI) simp_all
  ultimately show ?thesis using r by simp
qed

theorem recognize_no_models_witness:
  "ids_ok demo_test_set \<and>
   recognize demo_scorer ([] :: (string \<times> nat) list) demo_test_set = Inr ([Map.empty, Map.empty], [None, None])"
  using recognize_no_models[OF demo_ids_ok, of demo_scorer] demo_ids_ok
  by (simp add: demo_test_set_def)

section \<open>Properties of the model selectors\<close>

subsection \<open>The loop of SelectorBIC\<close>

lemma flt_trans: "flt a b \<Longrightarrow> flt b c \<Longrightarrow> flt a c"
  unfolding flt_def by (rule fgt_trans)

lemma flt_irrefl: "\<not> flt a a"
  unfolding flt_def by (rule fgt_irrefl)

lemma flt_asym: "flt a b \<Longrightarrow> \<not> flt b a"
  using flt_trans[of a b a] flt_irrefl[of a] by blast

lemma split_unique:
  "xs @ j # ys = xs' @ j # ys' \<Longrightarrow> j \<notin> set xs \<Longrightarrow> j \<notin> set xs' \<Longrightarrow> xs = xs'"
proof (induction xs arbitrary: xs')
  case Nil
  then show ?case by (cases xs') auto
next
  case (Cons a xs)
  then show ?case by (cases xs') auto
qed

lemma lengths_hd: "lengths self = l0 # ls \<Longrightarrow> list_get (lengths self) 0 = Inr l0"
  by (simp add: list_get_def)

lemma bic_loop_ok:
  assumes l: "list_get (lengths self) 0 = Inr l0"
    and ok: "\<forall>i \<in> set cs. i < l0 \<longrightarrow> (\<exists>m s. bic_try lib ops self i = Inr (m, s))"
  shows "\<exists>r. bic_loop lib ops self cs (bm, bs, fits)
               = Inr (r, fits @ map (\<lambda>i. (i, X self, lengths self)) (filter (\<lambda>i. i < l0) cs))
     \<and> ((r = bm \<and> (\<forall>i m s. i \<in> set cs \<and> i < l0 \<and> bic_try lib ops self i = Inr (m, s) \<longrightarrow> \<not> flt s bs))
        \<or> (\<exists>i m s. i \<in> set cs \<and> i < l0 \<and> bic_try lib ops self i = Inr (m, s) \<and> r = Some m \<and> flt s bs
             \<and> (\<forall>j m' s'. j \<in> set cs \<and> j < l0 \<and> bic_try lib ops self j = Inr (m', s') \<longrightarrow> \<not> flt s' s)))"
  using ok
proof (induction cs arbitrary: bm bs fits)
  case Nil
  then show ?case by simp
next
  case (Cons c cs)
  let ?call = "\<lambda>i. (i, X self, lengths self)"
  from Cons.prems have okr: "\<forall>i \<in> set cs. i < l0 \<longrightarrow> (\<exists>m s. bic_try lib ops self i = Inr (m, s))"
    by simp
  show ?case
  proof (cases "c < l0")
    case False
    then have step: "bic_loop lib ops self (c # cs) (bm, bs, fits) = bic_loop lib ops self cs (bm, bs, fits)"
      using l by simp
    from Cons.IH[OF okr, of bm bs fits] obtain r where
      r: "bic_loop lib ops self cs (bm, bs, fits) = Inr (r, fits @ map ?call (filter (\<lambda>i. i < l0) cs))"
      and d: "(r = bm \<and> (\<forall>i m s. i \<in> set cs \<and> i < l0 \<and> bic_try lib ops self i = Inr (m, s) \<longrightarrow> \<not> flt s bs))
        \<or> (\<exists>i m s. i \<in> set cs \<and> i < l0 \<and> bic_try lib ops self i = Inr (m, s) \<and> r = Some m \<and> flt s bs
             \<and> (\<forall>j m' s'. j \<in> set cs \<and> j < l0 \<and> bic_try lib ops self j = Inr (m', s') \<longrightarrow> \<not> flt s' s))"
      by blast
    have r': "bic_loop lib ops self (c # cs) (bm, bs, fits)
               = Inr (r, fits @ map ?call (filter (\<lambda>i. i < l0) (c # cs)))"
      using step r False by simp
    from d have "(r = bm \<and> (\<forall>i m s. i \<in> set (c # cs) \<and> i < l0 \<and> bic_try lib ops self i = Inr (m, s) \<longrightarrow> \<not> flt s bs))
        \<or> (\<exists>i m s. i \<in> set (c # cs) \<and> i < l0 \<and> bic_try lib ops self i = Inr (m, s) \<and> r = Some m \<and> flt s bs
             \<and> (\<forall>j m' s'. j \<in> set (c # cs) \<and> j < l0 \<and> bic_try lib ops self j = Inr (m', s') \<longrightarrow> \<not> flt s' s))"
    proof (elim disjE conjE exE)
      assume "r = bm" "\<forall>i m s. i \<in> set cs \<and> i < l0 \<and> bic_try lib ops self i = Inr (m, s) \<longrightarrow> \<not> flt s bs"
      with False show ?thesis by auto
    next
      fix i m s
      assume a: "i \<in> set cs" "i < l0" "bic_try lib ops self i = Inr (m, s)" "r = Some m" "flt s bs"
        "\<forall>j m' s'. j \<in> set cs \<and> j < l0 \<and> bic_try lib ops self j = Inr (m', s') \<longrightarrow> \<not> flt s' s"
      have "\<forall>j m' s'. j \<in> set (c # cs) \<and> j < l0 \<and> bic_try lib ops self j = Inr (m', s') \<longrightarrow> \<not> flt s' s"
        using a(6) False by auto
      with a(1-5) have "i \<in> set (c # cs) \<and> i < l0 \<and> bic_try lib ops self i = Inr (m, s) \<and> r = Some m \<and> flt s bs
             \<and> (\<forall>j m' s'. j \<in> set (c # cs) \<and> j < l0 \<and> bic_try lib ops self j = Inr (m', s') \<longrightarrow> \<not> flt s' s)"
        by simp
      then show ?thesis by blast
    qed
    with r' show ?thesis by blast
  next
    case True
    with Cons.prems obtain m0 s0 where t: "bic_try lib ops self c = Inr (m0, s0)" by auto
    show ?thesis
    proof (cases "flt s0 bs")
      case better: True
      have step: "bic_loop lib ops self (c # cs) (bm, bs, fits)
                   = bic_loop lib ops self cs (Some m0, s0, fits @ [?call c])"
        using l True t better by simp
      from Cons.IH[OF okr, of "Some m0" s0 "fits @ [?call c]"] obtain r where
        r: "bic_loop lib ops self cs (Some m0, s0, fits @ [?call c])
              = Inr (r, (fits @ [?call c]) @ map ?call (filter (\<lambda>i. i < l0) cs))"
        and d: "(r = Some m0 \<and> (\<forall>i m s. i \<in> set cs \<and> i < l0 \<and> bic_try lib ops self i = Inr (m, s) \<longrightarrow> \<not> flt s s0))
          \<or> (\<exists>i m s. i \<in> set cs \<and> i < l0 \<and> bic_try lib ops self i = Inr (m, s) \<and> r = Some m \<and> flt s s0
               \<and> (\<forall>j m' s'. j \<in> set cs \<and> j < l0 \<and> bic_try lib ops self j = Inr (m', s') \<longrightarrow> \<not> flt s' s))"
        by blast
      have r': "bic_loop lib ops self (c # cs) (bm, bs, fits)
               = Inr (r, fits @ map ?call (filter (\<lambda>i. i < l0) (c # cs)))"
        using step r True by simp
      from d have "\<exists>i m s. i \<in> set (c # cs) \<and> i < l0 \<and> bic_try lib ops self i = Inr (m, s) \<and> r = Some m \<and> flt s bs
             \<and> (\<forall>j m' s'. j \<in> set (c # cs) \<and> j < l0 \<and> bic_try lib ops self j = Inr (m', s') \<longrightarrow> \<not> flt s' s)"
      proof (elim disjE conjE exE)
        assume a: "r = Some m0" "\<forall>i m s. i \<in> set cs \<and> i < l0 \<and> bic_try lib ops self i = Inr (m, s) \<longrightarrow> \<not> flt s s0"
        have "\<forall>j m' s'. j \<in> set (c # cs) \<and> j < l0 \<and> bic_try lib ops self j = Inr (m', s') \<longrightarrow> \<not> flt s' s0"
          using a(2) t flt_irrefl by auto
        with a(1) True t better show ?thesis
          by (intro exI[of _ c] exI[of _ m0] exI[of _ s0]) simp
      next
        fix i m s
        assume a: "i \<in> set cs" "i < l0" "bic_try lib ops self i = Inr (m, s)" "r = Some m" "flt s s0"
          "\<forall>j m' s'. j \<in> set cs \<and> j < l0 \<and> bic_try lib ops self j = Inr (m', s') \<longrightarrow> \<not> flt s' s"
        from a(5) better have b: "flt s bs" by (rule flt_trans)
        from a(5) have "\<not> flt s0 s" by (rule flt_asym)
        with a(6) t have "\<forall>j m' s'. j \<in> set (c # cs) \<and> j < l0 \<and> bic_try lib ops self j = Inr (m', s') \<longrightarrow> \<not> flt s' s"
          by auto
        with a(1-4) b show ?thesis
          by (intro exI[of _ i] exI[of _ m] exI[of _ s]) simp
      qed
      with r' show ?thesis by blast
    next
      case worse: False
      have step: "bic_loop lib ops self (c # cs) (bm, bs, fits)
                   = bic_loop lib ops self cs (bm, bs, fits @ [?call c])"
        using l True t worse by simp
      from Cons.IH[OF okr, of bm bs "fits @ [?call c]"] obtain r where
        r: "bic_loop lib ops self cs (bm, bs, fits @ [?call c])
              = Inr (r, (fits @ [?call c]) @ map ?call (filter (\<lambda>i. i < l0) cs))"
        and d: "(r = bm \<and> (\<forall>i m s. i \<in> set cs \<and> i < l0 \<and> bic_try lib ops self i = Inr (m, s) \<longrightarrow> \<not> flt s bs))
          \<or> (\<exists>i m s. i \<in> set cs \<and> i < l0 \<and> bic_try lib ops self i = Inr (m, s) \<and> r = Some m \<and> flt s bs
               \<and> (\<forall>j m' s'. j \<in> set cs \<and> j < l0 \<and> bic_try lib ops self j = Inr (m', s') \<longrightarrow> \<not> flt s' s))"
        by blast
      have r': "bic_loop lib ops self (c # cs) (bm, bs, fits)
               = Inr (r, fits @ map ?call (filter (\<lambda>i. i < l0) (c # cs)))"
        using step r True by simp
      from d have "(r = bm \<and> (\<forall>i m s. i \<in> set (c # cs) \<and> i < l0 \<and> bic_try lib ops self i = Inr (m, s) \<longrightarrow> \<not> flt s bs))
        \<or> (\<exists>i m s. i \<in> set (c # cs) \<and> i < l0 \<and> bic_try lib ops self i = Inr (m, s) \<and> r = Some m \<and> flt s bs
             \<and> (\<forall>j m' s'. j \<in> set (c # cs) \<and> j < l0 \<and> bic_try lib ops self j = Inr (m', s') \<longrightarrow> \<not> flt s' s))"
      proof (elim disjE conjE exE)
        assume a: "r = bm" "\<forall>i m s. i \<in> set cs \<and> i < l0 \<and> bic_try lib ops self i = Inr (m, s) \<longrightarrow> \<not> flt s bs"
        have "\<forall>i m s. i \<in> set (c # cs) \<and> i < l0 \<and> bic_try lib ops self i = Inr (m, s) \<longrightarrow> \<not> flt s bs"
          using a(2) t worse by auto
        with a(1) show ?thesis by simp
      next
        fix i m s
        assume a: "i \<in> set cs" "i < l0" "bic_try lib ops self i = Inr (m, s)" "r = Some m" "flt s bs"
          "\<forall>j m' s'. j \<in> set cs \<and> j < l0 \<and> bic_try lib ops self j = Inr (m', s') \<longrightarrow> \<not> flt s' s"
        have "\<not> flt s0 s"
        proof
          assume "flt s0 s"
          then have "flt s0 bs" using a(5) by (rule flt_trans)
          with worse show False by simp
        qed
        with a(6) t have "\<forall>j m' s'. j \<in> set (c # cs) \<and> j < l0 \<and> bic_try lib ops self j = Inr (m', s') \<longrightarrow> \<not> flt s' s"
          by auto
        with a(1-5) have "i \<in> set (c # cs) \<and> i < l0 \<and> bic_try lib ops self i = Inr (m, s) \<and> r = Some m \<and> flt s bs
             \<and> (\<forall>j m' s'. j \<in> set (c # cs) \<and> j < l0 \<and> bic_try lib ops self j = Inr (m', s') \<longrightarrow> \<not> flt s' s)"
          by simp
        then show ?thesis by blast
      qed
      with r' show ?thesis by blast
    qed
  qed
qed

lemma bic_loop_fail:
  assumes l: "list_get (lengths self) 0 = Inr l0"
    and c: "c \<in> set cs" "c < l0" "bic_try lib ops self c = Inl e"
  shows "\<exists>pre post j e'. cs = pre @ j # post \<and> j < l0 \<and> bic_try lib ops self j = Inl e'
           \<and> (\<forall>i \<in> set pre. i < l0 \<longrightarrow> (\<exists>m s. bic_try lib ops self i = Inr (m, s)))
           \<and> bic_loop lib ops self cs (bm, bs, fits)
               = Inr (None, fits @ map (\<lambda>i. (i, X self, lengths self)) (filter (\<lambda>i. i < l0) (pre @ [j])))"
  using c
proof (induction cs arbitrary: bm bs fits)
  case Nil
  then show ?case by simp
next
  case (Cons a cs)
  let ?call = "\<lambda>i. (i, X self, lengths self)"
  show ?case
  proof (cases "a < l0")
    case False
    with Cons.prems have "c \<in> set cs" by auto
    from Cons.IH[OF this Cons.prems(2,3), of bm bs fits] obtain pre post j e' where
      p: "cs = pre @ j # post" "j < l0" "bic_try lib ops self j = Inl e'"
         "\<forall>i \<in> set pre. i < l0 \<longrightarrow> (\<exists>m s. bic_try lib ops self i = Inr (m, s))"
         "bic_loop lib ops self cs (bm, bs, fits)
               = Inr (None, fits @ map ?call (filter (\<lambda>i. i < l0) (pre @ [j])))"
      by blast
    have "a # cs = (a # pre) @ j # post" using p(1) by simp
    moreover have "\<forall>i \<in> set (a # pre). i < l0 \<longrightarrow> (\<exists>m s. bic_try lib ops self i = Inr (m, s))"
      using p(4) False by simp
    moreover have "bic_loop lib ops self (a # cs) (bm, bs, fits)
               = Inr (None, fits @ map ?call (filter (\<lambda>i. i < l0) ((a # pre) @ [j])))"
      using p(5) False l by simp
    ultimately show ?thesis using p(2,3) by blast
  next
    case True
    show ?thesis
    proof (cases "bic_try lib ops self a")
      case (Inl e0)
      have "a # cs = [] @ a # cs" by simp
      moreover have "bic_loop lib ops self (a # cs) (bm, bs, fits)
               = Inr (None, fits @ map ?call (filter (\<lambda>i. i < l0) ([] @ [a])))"
        using Inl True l by simp
      moreover have "\<forall>i \<in> set ([] :: int list). i < l0 \<longrightarrow> (\<exists>m s. bic_try lib ops self i = Inr (m, s))"
        by simp
      ultimately show ?thesis using True Inl by blast
    next
      case (Inr ms)
      obtain m0 s0 where ms: "ms = (m0, s0)" by (cases ms)
      with Inr Cons.prems have cin: "c \<in> set cs" by auto
      obtain bm' bs' where
        step: "bic_loop lib ops self (a # cs) (bm, bs, fits)
                = bic_loop lib ops self cs (bm', bs', fits @ [?call a])"
        using l True Inr ms by (cases "flt s0 bs") simp_all
      from Cons.IH[OF cin Cons.prems(2,3), of bm' bs' "fits @ [?call a]"] obtain pre post j e' where
        p: "cs = pre @ j # post" "j < l0" "bic_try lib ops self j = Inl e'"
           "\<forall>i \<in> set pre. i < l0 \<longrightarrow> (\<exists>m s. bic_try lib ops self i = Inr (m, s))"
           "bic_loop lib ops self cs (bm', bs', fits @ [?call a])
               = Inr (None, (fits @ [?call a]) @ map ?call (filter (\<lambda>i. i < l0) (pre @ [j])))"
        by blast
      have "a # cs = (a # pre) @ j # post" using p(1) by simp
      moreover have "\<forall>i \<in> set (a # pre). i < l0 \<longrightarrow> (\<exists>m s. bic_try lib ops self i = Inr (m, s))"
        using p(4) Inr ms by simp
      moreover have "bic_loop lib ops self (a # cs) (bm, bs, fits)
               = Inr (None, fits @ map ?call (filter (\<lambda>i. i < l0) ((a # pre) @ [j])))"
        using p(5) step True by simp
      ultimately show ?thesis using p(2,3) by blast
    qed
  qed
qed

lemma bic_try_fit_raises:
  "hmm_fit lib i (random_state self) (X self) (lengths self) = Inl e \<Longrightarrow> bic_try lib ops self i = Inl e"
  by (simp add: bic_try_def)

lemma bic_try_score_raises:
  "hmm_fit lib i (random_state self) (X self) (lengths self) = Inr m \<Longrightarrow>
   hmm_score lib m (X self) (lengths self) = Inl e \<Longrightarrow> bic_try lib ops self i = Inl e"
  by (simp add: bic_try_def)


subsection \<open>The concrete instances\<close>

lemma demo_fields:
  "words (demo_selector seqs mn mx) =
     [(''FISH'', seqs), (''BOOK'', [[[10], [11], [12], [13]]]),
      (''JOHN'', [[[20], [21], [22], [23], [24]]])]"
  "hwords (demo_selector seqs mn mx) =
     [(''FISH'', (concat seqs, map (\<lambda>sq. int (length sq)) seqs)),
      (''BOOK'', ([[10], [11], [12], [13]], [4])),
      (''JOHN'', ([[20], [21], [22], [23], [24]], [5]))]"
  "sequences (demo_selector seqs mn mx) = seqs"
  "X (demo_selector seqs mn mx) = concat seqs"
  "lengths (demo_selector seqs mn mx) = map (\<lambda>sq. int (length sq)) seqs"
  "this_word (demo_selector seqs mn mx) = ''FISH''"
  "n_constant (demo_selector seqs mn mx) = 3"
  "min_n_components (demo_selector seqs mn mx) = mn"
  "max_n_components (demo_selector seqs mn mx) = mx"
  "random_state (demo_selector seqs mn mx) = 14"
  by (simp_all add: demo_selector_def)

lemma demo_init:
  "ModelSelector_init
     [(''FISH'', [[[0], [1], [2], [3]]]), (''BOOK'', [[[10], [11], [12], [13]]]),
      (''JOHN'', [[[20], [21], [22], [23], [24]]])]
     [(''FISH'', ([[0], [1], [2], [3]], [4])), (''BOOK'', ([[10], [11], [12], [13]], [4])),
      (''JOHN'', ([[20], [21], [22], [23], [24]], [5]))]
     ''FISH'' 3 2 4 14 False
   = Inr (demo_selector [[[0], [1], [2], [3]]] 2 4)"
  by (simp add: ModelSelector_init_def demo_selector_def)

lemma bic_demo_try:
  "bad \<noteq> 2 \<Longrightarrow> bic_try (bic_lib bad) real_ops (demo_selector [[[0], [1], [2], [3]]] mn mx) 2
     = Inr (2, Fin (- 4000))"
  "bad \<noteq> 3 \<Longrightarrow> bic_try (bic_lib bad) real_ops (demo_selector [[[0], [1], [2], [3]]] mn mx) 3
     = Inr (3, Fin (- 6000))"
  "bad \<noteq> 4 \<Longrightarrow> bic_try (bic_lib bad) real_ops (demo_selector [[[0], [1], [2], [3]]] mn mx) 4
     = Inr (4, Fin (- 8000))"
  by (simp_all add: bic_try_def bic_lib_def real_ops_def demo_fields list_get_def)

lemma bic_demo_try_bad:
  "bic_try (bic_lib i) real_ops (demo_selector [[[0], [1], [2], [3]]] mn mx) i = Inl HmmError"
  by (simp add: bic_try_def bic_lib_def)

lemma score_bad_demo_try:
  "bad \<noteq> 2 \<Longrightarrow> bic_try (score_bad_lib bad) real_ops (demo_selector [[[0], [1], [2], [3]]] mn mx) 2
     = Inr (2, Fin (- 4000))"
  by (simp add: bic_try_def score_bad_lib_def real_ops_def demo_fields list_get_def)

lemma unit_demo_try:
  "bic_try unit_lib real_ops (demo_selector [[[0], [1], [2], [3], [4]]] mn mx) 2 = Inr (2, Fin (- 4))"
  "bic_try unit_lib real_ops (demo_selector [[[0], [1], [2], [3], [4]]] mn mx) 3 = Inr (3, Fin (- 6))"
  by (simp_all add: bic_try_def unit_lib_def real_ops_def demo_fields list_get_def)

subsection \<open>What the loop of SelectorBIC computes\<close>

text \<open>
  When \<^verbatim>\<open>self.lengths\<close> is not empty and no candidate below \<^verbatim>\<open>self.lengths[0]\<close>
  raises in the \<^verbatim>\<open>try\<close> block, the loop returns the model of such a candidate whose
  score, as line 101 computed it, no such candidate undercuts.
\<close>

lemma SelectorBIC_select_computed_lowest:
  assumes l: "lengths self = l0 # ls"
    and ok: "\<forall>i \<in> set [min_n_components self .. max_n_components self].
               i < l0 \<longrightarrow> (\<exists>m s. bic_try lib ops self i = Inr (m, s))"
  shows "\<exists>r fits. SelectorBIC_select lib ops self = Inr (r, fits)
     \<and> (r = None \<longrightarrow>
          (\<forall>i m s. min_n_components self \<le> i \<and> i \<le> max_n_components self \<and> i < l0
               \<and> bic_try lib ops self i = Inr (m, s) \<longrightarrow> \<not> flt s PInf))
     \<and> (\<forall>m. r = Some m \<longrightarrow>
          (\<exists>i s. min_n_components self \<le> i \<and> i \<le> max_n_components self \<and> i < l0
               \<and> bic_try lib ops self i = Inr (m, s)
               \<and> (\<forall>j m' s'. min_n_components self \<le> j \<and> j \<le> max_n_components self \<and> j < l0
                     \<and> bic_try lib ops self j = Inr (m', s') \<longrightarrow> \<not> flt s' s)))"
proof -
  let ?cs = "[min_n_components self .. max_n_components self]"
  from bic_loop_ok[OF lengths_hd[OF l] ok, of None PInf "[]"] obtain r where
    r: "bic_loop lib ops self ?cs (None, PInf, [])
          = Inr (r, [] @ map (\<lambda>i. (i, X self, lengths self)) (filter (\<lambda>i. i < l0) ?cs))"
    and d: "(r = None \<and> (\<forall>i m s. i \<in> set ?cs \<and> i < l0 \<and> bic_try lib ops self i = Inr (m, s) \<longrightarrow> \<not> flt s PInf))
        \<or> (\<exists>i m s. i \<in> set ?cs \<and> i < l0 \<and> bic_try lib ops self i = Inr (m, s) \<and> r = Some m \<and> flt s PInf
             \<and> (\<forall>j m' s'. j \<in> set ?cs \<and> j < l0 \<and> bic_try lib ops self j = Inr (m', s') \<longrightarrow> \<not> flt s' s))"
    by blast
  from d have "(r = None \<longrightarrow>
          (\<forall>i m s. min_n_components self \<le> i \<and> i \<le> max_n_components self \<and> i < l0
               \<and> bic_try lib ops self i = Inr (m, s) \<longrightarrow> \<not> flt s PInf))
     \<and> (\<forall>m. r = Some m \<longrightarrow>
          (\<exists>i s. min_n_components self \<le> i \<and> i \<le> max_n_components self \<and> i < l0
               \<and> bic_try lib ops self i = Inr (m, s)
               \<and> (\<forall>j m' s'. min_n_components self \<le> j \<and> j \<le> max_n_components self \<and> j < l0
                     \<and> bic_try lib ops self j = Inr (m', s') \<longrightarrow> \<not> flt s' s)))"
  proof (elim disjE conjE exE)
    assume "r = None" "\<forall>i m s. i \<in> set ?cs \<and> i < l0 \<and> bic_try lib ops self i = Inr (m, s) \<longrightarrow> \<not> flt s PInf"
    then show ?thesis by simp
  next
    fix i m s
    assume a: "i \<in> set ?cs" "i < l0" "bic_try lib ops self i = Inr (m, s)" "r = Some m"
      "\<forall>j m' s'. j \<in> set ?cs \<and> j < l0 \<and> bic_try lib ops self j = Inr (m', s') \<longrightarrow> \<not> flt s' s"
    then have "min_n_components self \<le> i \<and> i \<le> max_n_components self \<and> i < l0
               \<and> bic_try lib ops self i = Inr (m, s)
               \<and> (\<forall>j m' s'. min_n_components self \<le> j \<and> j \<le> max_n_components self \<and> j < l0
                     \<and> bic_try lib ops self j = Inr (m', s') \<longrightarrow> \<not> flt s' s)"
      by simp
    with a(4) show ?thesis by auto
  qed
  with r show ?thesis unfolding SelectorBIC_select_def by simp
qed

text \<open>
  The guard on line 90 at work: with bounds 2 and 4 and a first sequence of four frames
  the candidate 4 is not tried.
\<close>

lemma bic_guard_demo:
  "SelectorBIC_select (bic_lib 0) real_ops (demo_selector [[[0], [1], [2], [3]]] 2 4)
     = Inr (Some 3, [(2, [[0], [1], [2], [3]], [4]), (3, [[0], [1], [2], [3]], [4])])"
  by (simp add: SelectorBIC_select_def demo_fields list_get_def bic_demo_try flt_def)

text \<open>
  If the \<^verbatim>\<open>try\<close> block raises for a candidate \<open>c\<close> that the guard does not skip,
  the loop returns \<open>None\<close> at the first candidate \<open>j\<close> for which it raises.
\<close>

lemma SelectorBIC_select_first_failure:
  assumes l: "lengths self = l0 # ls"
    and c: "min_n_components self \<le> c" "c \<le> max_n_components self" "c < l0"
    and f: "bic_try lib ops self c = Inl e"
  shows "\<exists>j e'. min_n_components self \<le> j \<and> j \<le> c \<and> j < l0
           \<and> bic_try lib ops self j = Inl e'
           \<and> SelectorBIC_select lib ops self
               = Inr (None, map (\<lambda>i. (i, X self, lengths self))
                              (filter (\<lambda>i. i < l0) [min_n_components self .. j]))"
proof -
  let ?cs = "[min_n_components self .. max_n_components self]"
  from c have cin: "c \<in> set ?cs" by simp
  from bic_loop_fail[OF lengths_hd[OF l] cin c(3) f, of None PInf "[]"]
  obtain pre post j e' where
    p: "?cs = pre @ j # post" "j < l0" "bic_try lib ops self j = Inl e'"
       "\<forall>i \<in> set pre. i < l0 \<longrightarrow> (\<exists>m s. bic_try lib ops self i = Inr (m, s))"
       "bic_loop lib ops self ?cs (None, PInf, [])
               = Inr (None, [] @ map (\<lambda>i. (i, X self, lengths self)) (filter (\<lambda>i. i < l0) (pre @ [j])))"
    by blast
  from p(1) have jin: "j \<in> set ?cs" by (metis in_set_conv_decomp)
  then have jr: "min_n_components self \<le> j" "j \<le> max_n_components self" by simp_all
  have pre: "pre @ [j] = [min_n_components self .. j]"
  proof -
    have "?cs = [min_n_components self .. j] @ [j + 1 .. max_n_components self]"
      using jr by (rule upto_split2)
    also have "[min_n_components self .. j] = [min_n_components self .. j - 1] @ [j]"
      using jr(1) by (rule upto_rec2)
    finally have eq: "pre @ j # post = [min_n_components self .. j - 1] @ j # [j + 1 .. max_n_components self]"
      using p(1) by simp
    have n1: "j \<notin> set [min_n_components self .. j - 1]" by simp
    have "distinct ?cs" by simp
    then have "distinct (pre @ j # post)" using p(1) by simp
    then have n2: "j \<notin> set pre" by simp
    from split_unique[OF eq n2 n1] have "pre = [min_n_components self .. j - 1]" .
    then show ?thesis using upto_rec2[OF jr(1)] by simp
  qed
  have jc: "j \<le> c"
  proof (rule ccontr)
    assume "\<not> j \<le> c"
    then have "c \<in> set [min_n_components self .. j - 1]" using c(1) by simp
    then have "c \<in> set pre" using pre upto_rec2[OF jr(1)] by simp
    with p(4) c(3) f show False by auto
  qed
  from p(5) pre have "SelectorBIC_select lib ops self
               = Inr (None, map (\<lambda>i. (i, X self, lengths self))
                              (filter (\<lambda>i. i < l0) [min_n_components self .. j]))"
    unfolding SelectorBIC_select_def by simp
  with jr(1) jc p(2,3) show ?thesis by blast
qed

subsection \<open>The claims about the model selectors\<close>

text \<open>
  C2. \<open>SelectorBIC.select\<close> should return the model with the lowest
  \<open>BIC = -2 * logL + p * log N\<close>, \<open>N\<close> being the number of data points. For a word
  with one sequence of five frames, bounds 2 and 3, and models of \<open>m\<close> states scoring
  \<open>m\<close>, no candidate is skipped and nothing raises; with the five data points the
  criterion is lower for two states than for three. The selector returns the model of
  three states: line 99 takes for \<open>N\<close> the number of sequences, which is one, so that
  the penalty \<open>p * log N\<close> vanishes.
\<close>

theorem SelectorBIC_select_sequence_count_evaluation:
  "SelectorBIC_select unit_lib real_ops (demo_selector [[[0], [1], [2], [3], [4]]] 2 3)
     = Inr (Some 3, [(2, [[0], [1], [2], [3], [4]], [5]), (3, [[0], [1], [2], [3], [4]], [5])])
   \<and> hmm_score unit_lib 2 [[0], [1], [2], [3], [4]] [5] = Inr (Fin 2)
   \<and> hmm_score unit_lib 3 [[0], [1], [2], [3], [4]] [5] = Inr (Fin 3)
   \<and> length (X (demo_selector [[[0], [1], [2], [3], [4]]] 2 3)) = 5
   \<and> length (lengths (demo_selector [[[0], [1], [2], [3], [4]]] 2 3)) = 1
   \<and> spec_bic 2 (2 * 2 + 2 * 2 * 1 - 1) 5 < spec_bic 3 (3 * 3 + 2 * 3 * 1 - 1) 5"
proof -
  have "exp (1::real) \<le> 3" by (rule exp_le)
  also have "\<dots> < 5" by simp
  finally have "ln (exp (1::real)) < ln 5" by (simp only: ln_less_cancel_iff exp_gt_zero)
  then have "1 < ln (5::real)" by simp
  then have "spec_bic 2 (2 * 2 + 2 * 2 * 1 - 1) 5 < spec_bic 3 (3 * 3 + 2 * 3 * 1 - 1) 5"
    by (simp add: spec_bic_def)
  moreover have "SelectorBIC_select unit_lib real_ops (demo_selector [[[0], [1], [2], [3], [4]]] 2 3)
     = Inr (Some 3, [(2, [[0], [1], [2], [3], [4]], [5]), (3, [[0], [1], [2], [3], [4]], [5])])"
    by (simp add: SelectorBIC_select_def demo_fields list_get_def unit_demo_try flt_def)
  ultimately show ?thesis
    by (simp add: unit_lib_def demo_fields)
qed

text \<open>
  C3. \<open>SelectorCV.select\<close> should evaluate every candidate from \<open>min_n_components\<close>
  to \<open>max_n_components\<close> inclusive. With bounds 2 and 3 it fits models of two states
  only and returns one of them, although a model of three states scores higher on
  every fold: the range on line 224 stops before \<open>max_n_components\<close>.
\<close>

theorem SelectorCV_select_skips_max_evaluation:
  "SelectorCV_select cv_lib real_ops demo_cv (demo_selector [[[0], [1], [2]], [[3], [4]]] 2 3)
     = Inr (Some (2, [[0], [1], [2]]), [(2, [[3], [4]], [2]), (2, [[0], [1], [2]], [3])])
   \<and> hmm_score cv_lib (2, [[0], [1], [2]]) [[3], [4]] [2] = Inr (Fin 1)
   \<and> hmm_score cv_lib (3, [[0], [1], [2]]) [[3], [4]] [2] = Inr (Fin 5)"
  by (simp add: SelectorCV_select_def demo_fields demo_cv_def cv_lib_def real_ops_def Let_def)

text \<open>
  C4. \<open>SelectorDIC.select\<close> should maximise the log-likelihood of the word minus the
  mean of the log-likelihoods of all the other words. Here that criterion is \<open>-45\<close>
  for two states and \<open>5\<close> for three, yet the selector returns the model of two
  states: the score is compared after every other word, and after the first one it
  is \<open>10\<close>.
\<close>

theorem SelectorDIC_select_partial_sum_evaluation:
  "SelectorDIC_select dic_lib real_ops (demo_selector [[[0], [1], [2], [3]]] 2 3)
     = (Some (2, [[0], [1], [2], [3]]),
        [(2, [[0], [1], [2], [3]], [4]), (2, [[10], [11], [12], [13]], [4]),
         (2, [[20], [21], [22], [23], [24]], [5]),
         (3, [[0], [1], [2], [3]], [4]), (3, [[10], [11], [12], [13]], [4]),
         (3, [[20], [21], [22], [23], [24]], [5])])
   \<and> hmm_score dic_lib (2, [[0], [1], [2], [3]]) [[0], [1], [2], [3]] [4] = Inr (Fin 0)
   \<and> hmm_score dic_lib (2, [[10], [11], [12], [13]]) [[10], [11], [12], [13]] [4] = Inr (Fin (- 10))
   \<and> hmm_score dic_lib (2, [[20], [21], [22], [23], [24]]) [[20], [21], [22], [23], [24]] [5] = Inr (Fin 100)
   \<and> hmm_score dic_lib (3, [[0], [1], [2], [3]]) [[0], [1], [2], [3]] [4] = Inr (Fin 0)
   \<and> hmm_score dic_lib (3, [[10], [11], [12], [13]]) [[10], [11], [12], [13]] [4] = Inr (Fin (- 5))
   \<and> hmm_score dic_lib (3, [[20], [21], [22], [23], [24]]) [[20], [21], [22], [23], [24]] [5] = Inr (Fin (- 5))
   \<and> spec_dic 0 [- 10, 100] = - 45 \<and> spec_dic 0 [- 5, - 5] = 5"
  by (simp add: SelectorDIC_select_def demo_fields dic_lib_def real_ops_def list_get_def Let_def spec_dic_def)

text \<open>
  C7. \<open>SelectorConstant.select\<close> makes exactly one call of \<^verbatim>\<open>fit\<close>, with
  \<open>n_constant\<close> states; it does not depend on \<open>min_n_components\<close> or
  \<open>max_n_components\<close>; it returns the fitted model, and \<open>None\<close> exactly when the fit
  raises.
\<close>

theorem SelectorConstant_select_fits_n_constant:
  "SelectorConstant_select lib self =
     (case hmm_fit lib (n_constant self) (random_state self) (X self) (lengths self) of
        Inl e \<Rightarrow> None | Inr m \<Rightarrow> Some m,
      [(n_constant self, X self, lengths self)])
   \<and> SelectorConstant_select lib (self\<lparr>min_n_components := mn, max_n_components := mx\<rparr>)
       = SelectorConstant_select lib self
   \<and> (fst (SelectorConstant_select lib self) = None)
       = isl (hmm_fit lib (n_constant self) (random_state self) (X self) (lengths self))"
  by (simp add: SelectorConstant_select_def base_model_def split: sum.splits)

text \<open>
  C9. When the word has fewer training sequences than \<open>min_n_components\<close>,
  \<open>SelectorCV.select\<close> returns \<open>None\<close> and has made no call of \<^verbatim>\<open>fit\<close>.
\<close>

theorem SelectorCV_select_too_few_sequences:
  "int (length (sequences self)) < min_n_components self \<Longrightarrow>
   SelectorCV_select lib ops cv self = Inr (None, [])"
  by (simp add: SelectorCV_select_def)

theorem SelectorCV_select_too_few_sequences_witness:
  "int (length (sequences (demo_selector [[[0], [1], [2]], [[3], [4]]] 3 5))) < min_n_components (demo_selector [[[0], [1], [2]], [[3], [4]]] 3 5)
   \<and> SelectorCV_select cv_lib real_ops demo_cv (demo_selector [[[0], [1], [2]], [[3], [4]]] 3 5) = Inr (None, [])"
proof -
  have h: "int (length (sequences (demo_selector [[[0], [1], [2]], [[3], [4]]] 3 5)))
             < min_n_components (demo_selector [[[0], [1], [2]], [[3], [4]]] 3 5)"
    by (simp add: demo_fields)
  from SelectorCV_select_too_few_sequences[OF h, of cv_lib real_ops demo_cv] h
  show ?thesis by (intro conjI)
qed

text \<open>
  C10. If, for a candidate \<open>c\<close> that the guard does not skip, the fit raises, or the
  fit succeeds and scoring the fitted model raises, then \<open>SelectorBIC.select\<close> returns
  \<open>None\<close>, whatever the earlier candidates scored, and the calls of \<^verbatim>\<open>fit\<close> it has
  made are those for the candidates up to the first one, \<open>j\<close>, whose \<^verbatim>\<open>try\<close> block
  raised: none after it.
\<close>

theorem SelectorBIC_select_failure:
  assumes l: "lengths self = l0 # ls"
    and c: "min_n_components self \<le> c" "c \<le> max_n_components self" "c < l0"
    and f: "(\<exists>e. hmm_fit lib c (random_state self) (X self) (lengths self) = Inl e)
            \<or> (\<exists>m e. hmm_fit lib c (random_state self) (X self) (lengths self) = Inr m
                   \<and> hmm_score lib m (X self) (lengths self) = Inl e)"
  shows "\<exists>j. min_n_components self \<le> j \<and> j \<le> c \<and> j < l0
           \<and> SelectorBIC_select lib ops self
               = Inr (None, map (\<lambda>i. (i, X self, lengths self))
                              (filter (\<lambda>i. i < l0) [min_n_components self .. j]))"
proof -
  from f obtain e where "bic_try lib ops self c = Inl e"
  proof (elim disjE exE conjE)
    fix e assume "hmm_fit lib c (random_state self) (X self) (lengths self) = Inl e"
    then have "bic_try lib ops self c = Inl e" by (rule bic_try_fit_raises)
    then show ?thesis by (rule that)
  next
    fix m e
    assume "hmm_fit lib c (random_state self) (X self) (lengths self) = Inr m"
      "hmm_score lib m (X self) (lengths self) = Inl e"
    then have "bic_try lib ops self c = Inl e" by (rule bic_try_score_raises)
    then show ?thesis by (rule that)
  qed
  from SelectorBIC_select_first_failure[OF l c this] show ?thesis by blast
qed

theorem SelectorBIC_select_failure_witness:
  "lengths (demo_selector [[[0], [1], [2], [3]]] 2 4) = 4 # []
   \<and> min_n_components (demo_selector [[[0], [1], [2], [3]]] 2 4) \<le> 3
   \<and> 3 \<le> max_n_components (demo_selector [[[0], [1], [2], [3]]] 2 4) \<and> (3::int) < 4
   \<and> hmm_fit (bic_lib 3) 3 (random_state (demo_selector [[[0], [1], [2], [3]]] 2 4))
        (X (demo_selector [[[0], [1], [2], [3]]] 2 4))
        (lengths (demo_selector [[[0], [1], [2], [3]]] 2 4)) = Inl HmmError
   \<and> SelectorBIC_select (bic_lib 3) real_ops (demo_selector [[[0], [1], [2], [3]]] 2 4)
       = Inr (None, [(2, [[0], [1], [2], [3]], [4]), (3, [[0], [1], [2], [3]], [4])])
   \<and> hmm_fit (score_bad_lib 3) 3 (random_state (demo_selector [[[0], [1], [2], [3]]] 2 4))
        (X (demo_selector [[[0], [1], [2], [3]]] 2 4))
        (lengths (demo_selector [[[0], [1], [2], [3]]] 2 4)) = Inr 3
   \<and> hmm_score (score_bad_lib 3) 3 (X (demo_selector [[[0], [1], [2], [3]]] 2 4))
        (lengths (demo_selector [[[0], [1], [2], [3]]] 2 4)) = Inl HmmError
   \<and> SelectorBIC_select (score_bad_lib 3) real_ops (demo_selector [[[0], [1], [2], [3]]] 2 4)
       = Inr (None, [(2, [[0], [1], [2], [3]], [4]), (3, [[0], [1], [2], [3]], [4])])"
proof -
  let ?s = "demo_selector [[[0], [1], [2], [3]]] 2 4"
  have l: "lengths ?s = 4 # []" by (simp add: demo_fields)
  have c: "min_n_components ?s \<le> 3" "3 \<le> max_n_components ?s" "(3::int) < 4"
    by (simp_all add: demo_fields)
  have ff: "hmm_fit (bic_lib 3) 3 (random_state ?s) (X ?s) (lengths ?s) = Inl HmmError"
    by (simp add: bic_lib_def)
  have sf: "hmm_fit (score_bad_lib 3) 3 (random_state ?s) (X ?s) (lengths ?s) = Inr 3"
    by (simp add: score_bad_lib_def)
  have ss: "hmm_score (score_bad_lib 3) 3 (X ?s) (lengths ?s) = Inl HmmError"
    by (simp add: score_bad_lib_def)
  have f1: "(\<exists>e. hmm_fit (bic_lib 3) 3 (random_state ?s) (X ?s) (lengths ?s) = Inl e)
            \<or> (\<exists>m e. hmm_fit (bic_lib 3) 3 (random_state ?s) (X ?s) (lengths ?s) = Inr m
                   \<and> hmm_score (bic_lib 3) m (X ?s) (lengths ?s) = Inl e)"
    using ff by simp
  have f2: "(\<exists>e. hmm_fit (score_bad_lib 3) 3 (random_state ?s) (X ?s) (lengths ?s) = Inl e)
            \<or> (\<exists>m e. hmm_fit (score_bad_lib 3) 3 (random_state ?s) (X ?s) (lengths ?s) = Inr m
                   \<and> hmm_score (score_bad_lib 3) m (X ?s) (lengths ?s) = Inl e)"
    using sf ss by simp
  have two: "j = 2 \<or> j = 3" if "min_n_components ?s \<le> j" "j \<le> 3" "j < 4"
      and r: "SelectorBIC_select lib real_ops ?s
               = Inr (None, map (\<lambda>i. (i, X ?s, lengths ?s)) (filter (\<lambda>i. i < 4) [min_n_components ?s .. j]))"
    for j and lib :: "(int, int) hmmlib"
    using that by (simp add: demo_fields) arith
  have r1: "SelectorBIC_select (bic_lib 3) real_ops ?s
       = Inr (None, [(2, [[0], [1], [2], [3]], [4]), (3, [[0], [1], [2], [3]], [4])])"
  proof -
    from SelectorBIC_select_failure[OF l c f1, of real_ops] obtain j where
      j: "min_n_components ?s \<le> j" "j \<le> 3" "j < 4"
      and r: "SelectorBIC_select (bic_lib 3) real_ops ?s
               = Inr (None, map (\<lambda>i. (i, X ?s, lengths ?s)) (filter (\<lambda>i. i < 4) [min_n_components ?s .. j]))"
      by blast
    have "j \<noteq> 2"
    proof
      assume "j = 2"
      with r have "SelectorBIC_select (bic_lib 3) real_ops ?s = Inr (None, [(2, [[0], [1], [2], [3]], [4])])"
        by (simp add: demo_fields)
      moreover have "SelectorBIC_select (bic_lib 3) real_ops ?s
           = Inr (None, [(2, [[0], [1], [2], [3]], [4]), (3, [[0], [1], [2], [3]], [4])])"
        by (simp add: SelectorBIC_select_def demo_fields list_get_def bic_demo_try bic_demo_try_bad flt_def)
      ultimately show False by simp
    qed
    with two[OF j r] have "j = 3" by simp
    with r show ?thesis by (simp add: demo_fields)
  qed
  have r2: "SelectorBIC_select (score_bad_lib 3) real_ops ?s
       = Inr (None, [(2, [[0], [1], [2], [3]], [4]), (3, [[0], [1], [2], [3]], [4])])"
  proof -
    from SelectorBIC_select_failure[OF l c f2, of real_ops] obtain j where
      j: "min_n_components ?s \<le> j" "j \<le> 3" "j < 4"
      and r: "SelectorBIC_select (score_bad_lib 3) real_ops ?s
               = Inr (None, map (\<lambda>i. (i, X ?s, lengths ?s)) (filter (\<lambda>i. i < 4) [min_n_components ?s .. j]))"
      by blast
    have "j \<noteq> 2"
    proof
      assume "j = 2"
      with r have "SelectorBIC_select (score_bad_lib 3) real_ops ?s = Inr (None, [(2, [[0], [1], [2], [3]], [4])])"
        by (simp add: demo_fields)
      moreover have "SelectorBIC_select (score_bad_lib 3) real_ops ?s
           = Inr (None, [(2, [[0], [1], [2], [3]], [4]), (3, [[0], [1], [2], [3]], [4])])"
        by (simp add: SelectorBIC_select_def demo_fields list_get_def score_bad_demo_try flt_def
              bic_try_score_raises[OF sf ss])
      ultimately show False by simp
    qed
    with two[OF j r] have "j = 3" by simp
    with r show ?thesis by (simp add: demo_fields)
  qed
  from l c ff r1 sf ss r2 show ?thesis by (intro conjI)
qed

end
